theory Spec2Isabelle
  imports Main
begin

text \<open>
  A model of the two browser components of the theme: the quick-view drawer
  (\<open>QuickViewDrawer\<close>) and the header menu (\<open>HeaderMenu\<close> of \<open>assets/header-menu.js\<close>). Each
  method is a function on the part of the page it reads and writes; what the browser and the
  network supply is a parameter. The definitions come first, the properties after them.
\<close>

section \<open>Quick-view drawer: quantity selector\<close>

text \<open>
  The quantity input of the drawer is an \<open>input type="number"\<close> whose markup starts with
  \<open>value="1" min="1" max="999"\<close>. Its value is a string; the click handlers of
  \<open>#initializeQuantitySelector\<close> read it with \<open>parseInt(quantityInput.value) || 1\<close> and write a
  number back, which the DOM stores as its decimal string.

  \<open>parseInt\<close> is modelled for radix 10: leading white space is skipped, one sign is read, and
  the longest run of decimal digits is the result; no digit at all is \<open>NaN\<close> (\<open>None\<close>). The
  prefix \<open>0x\<close> of radix 16 is not modelled: the value of a number input is empty or a valid
  floating-point number. Numbers are integers here, exact as long as they stay below \<open>2^53\<close>.
\<close>

definition is_space :: "char \<Rightarrow> bool" where
  "is_space c = (c = CHR '' '' \<or> c = CHR 0x09 \<or> c = CHR 0x0A \<or> c = CHR 0x0B \<or> c = CHR 0x0C \<or> c = CHR 0x0D)"

definition is_digit :: "char \<Rightarrow> bool" where
  "is_digit c = ((48::nat) \<le> of_char c \<and> of_char c \<le> (57::nat))"

definition digit_of :: "char \<Rightarrow> nat" where
  "digit_of c = of_char c - 48"

definition digits_to_nat :: "string \<Rightarrow> nat" where
  "digits_to_nat ds = foldl (\<lambda>a c. 10 * a + digit_of c) 0 ds"

definition parseInt :: "string \<Rightarrow> int option" where
  "parseInt s =
     (let t = dropWhile is_space s;
          neg = (case t of [] \<Rightarrow> False | c # _ \<Rightarrow> c = CHR ''-'');
          u = (case t of [] \<Rightarrow> [] | c # r \<Rightarrow> if c = CHR ''-'' \<or> c = CHR ''+'' then r else t);
          ds = takeWhile is_digit u
      in if ds = [] then None
         else Some (if neg then - int (digits_to_nat ds) else int (digits_to_nat ds)))"

definition digit_char :: "nat \<Rightarrow> char" where
  "digit_char d = char_of (48 + d)"

fun string_of_nat :: "nat \<Rightarrow> string" where
  "string_of_nat n =
     (if n < 10 then [digit_char n] else string_of_nat (n div 10) @ [digit_char (n mod 10)])"

declare string_of_nat.simps [simp del]

text \<open>\<open>String(n)\<close> for an integer \<open>n\<close>, as the assignment to \<open>quantityInput.value\<close> stores it.\<close>

definition js_string_of_int :: "int \<Rightarrow> string" where
  "js_string_of_int n =
     (if n < 0 then CHR ''-'' # string_of_nat (nat (- n)) else string_of_nat (nat n))"

text \<open>\<open>parseInt(quantityInput.value) || 1\<close>: \<open>NaN\<close> and \<open>0\<close> are falsy.\<close>

definition currentValue :: "string \<Rightarrow> int" where
  "currentValue v = (case parseInt v of None \<Rightarrow> 1 | Some n \<Rightarrow> if n = 0 then 1 else n)"

definition minus_click :: "string \<Rightarrow> string" where
  "minus_click v = (if currentValue v > 1 then js_string_of_int (currentValue v - 1) else v)"

definition plus_click :: "string \<Rightarrow> string" where
  "plus_click v = (if currentValue v < 999 then js_string_of_int (currentValue v + 1) else v)"

datatype quantity_button = MinusBtn | PlusBtn

fun button_click :: "string \<Rightarrow> quantity_button \<Rightarrow> string" where
  "button_click v MinusBtn = minus_click v"
| "button_click v PlusBtn = plus_click v"

text \<open>The markup of \<open>#buildProductContent\<close> gives the input the value \<open>1\<close>.\<close>

definition initial_quantity :: string where
  "initial_quantity = ''1''"

definition quantity_after :: "quantity_button list \<Rightarrow> string" where
  "quantity_after bs = foldl button_click initial_quantity bs"


section \<open>Quick-view drawer: selected variant\<close>

text \<open>
  \<open>#getSelectedVariant\<close> reads the variant groups of the drawer in document order. A group
  is modelled by the \<open>data-value\<close> of its first option carrying the class \<open>selected\<close>
  (\<open>None\<close> when the group has none); a variant by the fields the drawer reads.
\<close>

record variant =
  variant_id :: int
  options :: "string list"
  available :: bool

definition selectedOptions :: "string option list \<Rightarrow> string list" where
  "selectedOptions groups = concat (map (\<lambda>g. case g of None \<Rightarrow> [] | Some v \<Rightarrow> [v]) groups)"

text \<open>\<open>variant.options[index]\<close>: \<open>undefined\<close> (\<open>None\<close>) past the end of the array.\<close>

definition option_at :: "variant \<Rightarrow> nat \<Rightarrow> string option" where
  "option_at v i = (if i < length (options v) then Some (options v ! i) else None)"

text \<open>\<open>selectedOptions.every((option, index) => variant.options[index] === option)\<close>\<close>

definition every_option_matches :: "string list \<Rightarrow> variant \<Rightarrow> bool" where
  "every_option_matches sel v = list_all (\<lambda>(index, opt). option_at v index = Some opt) (enumerate 0 sel)"

text \<open>
  \<open>product.variants.find(...) || product.variants[0]\<close>; the result is \<open>undefined\<close> (\<open>None\<close>) only
  for an empty variants array.
\<close>

definition getSelectedVariant :: "variant list \<Rightarrow> string option list \<Rightarrow> variant option" where
  "getSelectedVariant variants groups =
     (case find (every_option_matches (selectedOptions groups)) variants of
        Some v \<Rightarrow> Some v
      | None \<Rightarrow> (case variants of [] \<Rightarrow> None | v # _ \<Rightarrow> Some v))"


section \<open>Quick-view drawer: media gallery\<close>

text \<open>
  \<open>#buildMediaGallery\<close> builds markup from template literals; the strings below are the
  literals of the source, line breaks and indentation included. The images are the strings
  the template interpolates; a missing array (\<open>undefined\<close> or \<open>null\<close>) is \<open>None\<close>.
\<close>

definition dquote :: "string \<Rightarrow> string" where
  "dquote s = CHR 0x22 # s @ [CHR 0x22]"

definition media_item :: "string \<Rightarrow> string" where
  "media_item img =
     ''\<newline>      <div class='' @ dquote ''quick-view-media-item'' @ ''>'' @
     ''\<newline>        <img src='' @ dquote img @ '' alt='' @ dquote ''Product image'' @
       '' loading='' @ dquote ''lazy'' @ ''>'' @
     ''\<newline>      </div>\<newline>    ''"

definition imageItems :: "string list \<Rightarrow> string list" where
  "imageItems images = map media_item (take 5 images)"

definition gallery_open :: string where
  "gallery_open =
     ''\<newline>      <div class='' @ dquote ''quick-view-media-gallery'' @ ''>'' @
     ''\<newline>        <div class='' @ dquote ''quick-view-media-scroll'' @ ''>'' @
     ''\<newline>          ''"

definition gallery_close :: string where
  "gallery_close = ''\<newline>        </div>\<newline>      </div>\<newline>    ''"

text \<open>
  For reading markup: \<open>starts_with pat s\<close> says that the string \<open>s\<close> begins with \<open>pat\<close>, and
  \<open>occurrences pat s\<close> is the number of positions of \<open>s\<close> at which the non-empty pattern
  \<open>pat\<close> begins.
\<close>

fun starts_with :: "string \<Rightarrow> string \<Rightarrow> bool" where
  "starts_with [] s = True"
| "starts_with (p # ps) [] = False"
| "starts_with (p # ps) (c # cs) = (p = c \<and> starts_with ps cs)"

fun occurrences :: "string \<Rightarrow> string \<Rightarrow> nat" where
  "occurrences pat [] = 0"
| "occurrences pat (c # cs) = (if starts_with pat (c # cs) then 1 else 0) + occurrences pat cs"

definition buildMediaGallery :: "string list option \<Rightarrow> string" where
  "buildMediaGallery images =
     (case images of
        None \<Rightarrow> []
      | Some imgs \<Rightarrow>
          if length imgs = 0 then []
          else gallery_open @ concat (imageItems imgs) @ gallery_close)"


text \<open>
  \<open>#handleAddToCart\<close>, with the add-to-cart button and the quantity input of the drawer's
  markup in place, posts the id of the selected variant and the quantity to \<open>/cart/add.js\<close>;
  without a selected variant it logs an error and posts nothing (\<open>None\<close>). The result below is
  the form data of the request.
\<close>

definition handleAddToCart_formData :: "variant list \<Rightarrow> string option list \<Rightarrow> string \<Rightarrow> (int \<times> int) option" where
  "handleAddToCart_formData variants groups quantity_value =
     (let quantity = currentValue quantity_value in
      case getSelectedVariant variants groups of
        None \<Rightarrow> None
      | Some selectedVariant \<Rightarrow> Some (variant_id selectedVariant, quantity))"


section \<open>Quick-view drawer: loading product data\<close>

text \<open>
  Values of JavaScript as \<open>JSON.parse\<close> produces them, and \<open>undefined\<close>. Numbers are integers
  (ids, prices in cents). The properties of an object are a list of keys and values.
\<close>

datatype jsval =
    JUndefined
  | JNull
  | JBool bool
  | JNum int
  | JStr string
  | JArr "jsval list"
  | JObj "(string \<times> jsval) list"

fun truthy :: "jsval \<Rightarrow> bool" where
  "truthy JUndefined = False"
| "truthy JNull = False"
| "truthy (JBool b) = b"
| "truthy (JNum n) = (n \<noteq> 0)"
| "truthy (JStr s) = (s \<noteq> [])"
| "truthy (JArr _) = True"
| "truthy (JObj _) = True"

text \<open>
  \<open>product.key\<close> for one of the keys \<open>#extractProductData\<close> reads, on a truthy \<open>product\<close>: an
  own property of an object, \<open>undefined\<close> on every other value (none of the keys read is a
  property of a string, a number, a boolean or an array).
\<close>

fun get_property :: "jsval \<Rightarrow> string \<Rightarrow> jsval" where
  "get_property (JObj kvs) k = (case map_of kvs k of None \<Rightarrow> JUndefined | Some v \<Rightarrow> v)"
| "get_property _ k = JUndefined"

text \<open>\<open>v || []\<close>\<close>

definition or_empty_array :: "jsval \<Rightarrow> jsval" where
  "or_empty_array v = (if truthy v then v else JArr [])"

record product_data =
  pd_id :: jsval
  pd_title :: jsval
  pd_description :: jsval
  pd_price :: jsval
  pd_compare_at_price :: jsval
  pd_available :: jsval
  pd_images :: jsval
  pd_variants :: jsval
  pd_options :: jsval
  pd_handle :: jsval

datatype js_error = Error string | TypeError | SyntaxError

text \<open>
  What the page gets from outside: \<open>fetch\<close> answers a URL with a response (its \<open>ok\<close> flag and
  its text) or rejects; \<open>product_json_text\<close> is \<open>DOMParser.parseFromString\<close> followed by
  \<open>querySelector('[data-product-json]')\<close> and \<open>textContent\<close> (\<open>None\<close>: the document has no such
  element); \<open>JSON_parse\<close> is \<open>JSON.parse\<close> (\<open>None\<close>: it throws a SyntaxError).
\<close>

datatype fetch_result = Rejected | Response bool string

record platform =
  fetch :: "string \<Rightarrow> fetch_result"
  product_json_text :: "string \<Rightarrow> string option"
  JSON_parse :: "string \<Rightarrow> jsval option"

definition extractProductData :: "platform \<Rightarrow> string \<Rightarrow> js_error + product_data" where
  "extractProductData env html =
     (case (case product_json_text env html of
              None \<Rightarrow> Inr JNull
            | Some textContent \<Rightarrow>
                (case JSON_parse env textContent of
                   None \<Rightarrow> Inl SyntaxError
                 | Some v \<Rightarrow> Inr v)) of
        Inl e \<Rightarrow> Inl e
      | Inr product \<Rightarrow>
          if \<not> truthy product then Inl (Error ''Product data not found'')
          else Inr \<lparr> pd_id = get_property product ''id'',
                     pd_title = get_property product ''title'',
                     pd_description = get_property product ''description'',
                     pd_price = get_property product ''price'',
                     pd_compare_at_price = get_property product ''compare_at_price'',
                     pd_available = get_property product ''available'',
                     pd_images = or_empty_array (get_property product ''images''),
                     pd_variants = or_empty_array (get_property product ''variants''),
                     pd_options = or_empty_array (get_property product ''options''),
                     pd_handle = get_property product ''handle'' \<rparr>)"

text \<open>
  The drawer shows the loading state, the error state, or the product view that
  \<open>#updateDrawerContent\<close> builds from product data (the markup of \<open>#buildProductContent\<close> with
  its controls wired). The template literals of the markup throw a TypeError on product data
  of the wrong shape (an option without a \<open>values\<close> array, images that are no array); whether
  \<open>#updateDrawerContent\<close> completes on given product data is the parameter \<open>renders\<close>.
\<close>

datatype drawer_content = Loading | ErrorState | ProductView product_data

record quick_view =
  cachedContent :: "string \<rightharpoonup> product_data"
  drawerContent :: drawer_content
  dialogOpen :: bool
  fetches :: "string list"

definition showLoading :: "quick_view \<Rightarrow> quick_view" where
  "showLoading s = s\<lparr>drawerContent := Loading\<rparr>"

definition showError :: "quick_view \<Rightarrow> quick_view" where
  "showError s = s\<lparr>drawerContent := ErrorState\<rparr>"

definition updateDrawerContent ::
  "(product_data \<Rightarrow> bool) \<Rightarrow> product_data \<Rightarrow> quick_view \<Rightarrow> js_error option \<times> quick_view" where
  "updateDrawerContent renders productData s =
     (if renders productData then (None, s\<lparr>drawerContent := ProductView productData\<rparr>)
      else (Some TypeError, s))"

definition product_url :: "string \<Rightarrow> string" where
  "product_url productHandle = ''/products/'' @ productHandle @ ''?view=quick-view''"

text \<open>
  The body of the \<open>try\<close> block of \<open>#loadProductData\<close>: the error thrown, if any, and the state
  at that point. Every request is added to \<open>fetches\<close>.
\<close>

definition loadProductData_try ::
  "(product_data \<Rightarrow> bool) \<Rightarrow> platform \<Rightarrow> string \<Rightarrow> quick_view \<Rightarrow> js_error option \<times> quick_view" where
  "loadProductData_try renders env productHandle s =
     (case cachedContent s productHandle of
        Some productData \<Rightarrow> updateDrawerContent renders productData s
      | None \<Rightarrow>
          (let s1 = s\<lparr>fetches := fetches s @ [product_url productHandle]\<rparr> in
           case fetch env (product_url productHandle) of
             Rejected \<Rightarrow> (Some TypeError, s1)
           | Response ok html \<Rightarrow>
               if \<not> ok then (Some (Error ''Failed to fetch product data''), s1)
               else (case extractProductData env html of
                       Inl e \<Rightarrow> (Some e, s1)
                     | Inr productData \<Rightarrow>
                         updateDrawerContent renders productData
                           (s1\<lparr>cachedContent := (cachedContent s1)(productHandle \<mapsto> productData)\<rparr>))))"

definition loadProductData ::
  "(product_data \<Rightarrow> bool) \<Rightarrow> platform \<Rightarrow> string \<Rightarrow> quick_view \<Rightarrow> quick_view" where
  "loadProductData renders env productHandle s =
     (case loadProductData_try renders env productHandle (showLoading s) of
        (None, s') \<Rightarrow> s'
      | (Some e, s') \<Rightarrow> showError s')"








text \<open>
  Modelled from the spec: \<open>showDialog\<close> belongs to \<open>DialogComponent\<close> of \<open>@theme/dialog\<close>, which is
  not among the sources; the quick-view drawer is a slide-up panel, and showing the dialog
  opens it.
\<close>

definition showDialog :: "quick_view \<Rightarrow> quick_view" where
  "showDialog s = s\<lparr>dialogOpen := True\<rparr>"

text \<open>
  A click: \<open>quickViewBtn\<close> is \<open>event.target.closest('.product-card__quick-view-btn')\<close> with the
  two entries of its dataset the handler reads (\<open>None\<close>: the attribute is absent).
\<close>

record button_dataset =
  productId :: "string option"
  productHandle :: "string option"

record click_event =
  quickViewBtn :: "button_dataset option"
  defaultPrevented :: bool
  propagationStopped :: bool

text \<open>\<open>!x\<close> for a dataset entry: \<open>undefined\<close> and the empty string are falsy.\<close>

definition falsy_entry :: "string option \<Rightarrow> bool" where
  "falsy_entry x = (case x of None \<Rightarrow> True | Some v \<Rightarrow> v = [])"

definition handleQuickViewClick ::
  "(product_data \<Rightarrow> bool) \<Rightarrow> platform \<Rightarrow> click_event \<Rightarrow> quick_view \<Rightarrow> click_event \<times> quick_view" where
  "handleQuickViewClick renders env event s =
     (case quickViewBtn event of
        None \<Rightarrow> (event, s)
      | Some btn \<Rightarrow>
          (let event1 = event\<lparr>defaultPrevented := True, propagationStopped := True\<rparr> in
           if falsy_entry (productId btn) \<or> falsy_entry (productHandle btn) then (event1, s)
           else (event1, showDialog (loadProductData renders env (the (productHandle btn)) s))))"


section \<open>Header menu: the document\<close>

text \<open>
  The part of the document the header menu reads and never changes. Elements are values of
  a type \<open>'e\<close>. \<open>ancestors\<close> lists the ancestors of an element, nearest first; \<open>descendants\<close> its
  descendants in document order; \<open>slot\<close> and \<open>ref\<close> are the attributes of those names (empty
  when absent); \<open>overflowMenu\<close> is the getter of that name of the component and
  \<open>animationDelay\<close> its \<open>data-animation-delay\<close>; \<open>host\<close> is the component itself, the
  \<open>header-menu\<close> element.
\<close>

record 'e dom =
  host :: 'e
  ancestors :: "'e \<Rightarrow> 'e list"
  descendants :: "'e \<Rightarrow> 'e list"
  classList :: "'e \<Rightarrow> string list"
  slot :: "'e \<Rightarrow> string"
  ref :: "'e \<Rightarrow> string"
  isHTMLElement :: "'e \<Rightarrow> bool"
  offsetHeight :: "'e \<Rightarrow> nat"
  overflowMenu :: "'e option"
  animationDelay :: nat

definition parentElement :: "'e dom \<Rightarrow> 'e \<Rightarrow> 'e option" where
  "parentElement d e = (case ancestors d e of [] \<Rightarrow> None | p # _ \<Rightarrow> Some p)"

text \<open>\<open>e.closest('.c')\<close>\<close>

definition closest_class :: "'e dom \<Rightarrow> string \<Rightarrow> 'e \<Rightarrow> 'e option" where
  "closest_class d c e = find (\<lambda>x. c \<in> set (classList d x)) (e # ancestors d e)"

text \<open>\<open>e.querySelector(sel)\<close>: the first descendant the selector matches.\<close>

definition querySelector :: "'e dom \<Rightarrow> ('e \<Rightarrow> bool) \<Rightarrow> 'e \<Rightarrow> 'e option" where
  "querySelector d sel e = find sel (descendants d e)"

text \<open>\<open>a.contains(b)\<close>\<close>

definition element_contains :: "'e dom \<Rightarrow> 'e \<Rightarrow> 'e \<Rightarrow> bool" where
  "element_contains d a b = (a = b \<or> b \<in> set (descendants d a))"

text \<open>
  \<open>findMenuItem\<close>: on the "More" item (slot \<open>more\<close>) the search goes on from the first
  overflowing item of the parent. That element has the slot \<open>overflow\<close>, so the recursion
  ends after one call.
\<close>

function findMenuItem :: "'e dom \<Rightarrow> 'e option \<Rightarrow> 'e option" where
  "findMenuItem d None = None"
| "findMenuItem d (Some element) =
     (if slot d element = ''more'' then
        findMenuItem d
          (case parentElement d element of
             None \<Rightarrow> None
           | Some p \<Rightarrow> querySelector d (\<lambda>x. slot d x = ''overflow'') p)
      else querySelector d (\<lambda>x. ref d x = ''menuitem'') element)"
  by pat_completeness auto
termination
proof (relation "measure (\<lambda>(d, el). case el of None \<Rightarrow> 0 | Some e \<Rightarrow> if slot d e = ''more'' then 1 else 0)")
  show "wf (measure (\<lambda>(d :: 'e dom, el). case el of None \<Rightarrow> 0 | Some e \<Rightarrow> if slot d e = ''more'' then 1 else (0::nat)))"
    by simp
next
  fix d :: "'e dom" and element
  assume "slot d element = ''more''"
  then show "((d, case parentElement d element of None \<Rightarrow> None
                    | Some p \<Rightarrow> querySelector d (\<lambda>x. slot d x = ''overflow'') p),
              d, Some element)
             \<in> measure (\<lambda>(d, el). case el of None \<Rightarrow> 0 | Some e \<Rightarrow> if slot d e = ''more'' then 1 else 0)"
    by (auto simp: querySelector_def find_Some_iff split: option.splits)
qed

declare findMenuItem.simps [simp del]

definition findSubmenu :: "'e dom \<Rightarrow> 'e option \<Rightarrow> 'e option" where
  "findSubmenu d element =
     (case element of
        None \<Rightarrow> None
      | Some el \<Rightarrow>
          (case parentElement d el of
             None \<Rightarrow> None
           | Some p \<Rightarrow>
               (case querySelector d (\<lambda>x. ref d x = ''submenu[]'') p of
                  None \<Rightarrow> None
                | Some submenu \<Rightarrow> if isHTMLElement d submenu then Some submenu else None)))"


section \<open>Header menu: state, timers and handlers\<close>

definition ACTIVATE_DELAY :: nat where
  "ACTIVATE_DELAY = 0"

definition DEACTIVATE_DELAY :: nat where
  "DEACTIVATE_DELAY = 350"

text \<open>
  A pointer or focus event: \<open>None\<close> stands for a target (related target) that is not an
  Element.
\<close>

record 'e pointer_event =
  target :: "'e option"
  relatedTarget :: "'e option"

text \<open>The callbacks that timers have run, in order: a record kept beside the state.\<close>

datatype fired = FiredActivateHandler | FiredDeactivate

text \<open>
  The state of the component: \<open>#state.activeItem\<close>; the attributes \<open>aria-expanded\<close>, \<open>hidden\<close> and
  \<open>data-animating\<close> of the elements; \<open>aria-expanded\<close> and \<open>data-animating\<close> of the component
  itself, which is none of its menu items (they are its descendants); its
  \<open>dataset.overflowExpanded\<close> and the style properties \<open>--submenu-height\<close> (in px) and
  \<open>--submenu-opacity\<close>; whether the overflow menu matches \<open>:hover\<close>; the timer of each of the
  two debounced functions, with the time it has left in ms; and the timeouts set for removing
  \<open>data-animating\<close> again (element and delay), which are recorded and not run: nothing below
  reads the attribute.
\<close>

record 'e header_menu =
  activeItem :: "'e option"
  ariaExpanded :: "'e \<Rightarrow> string option"
  hidden :: "'e \<Rightarrow> bool"
  dataAnimating :: "'e \<Rightarrow> bool"
  hostAriaExpanded :: "string option"
  hostDataAnimating :: bool
  overflowExpanded :: "string option"
  submenuHeight :: "nat option"
  submenuOpacity :: "string option"
  overflowHovered :: bool
  pendingActivate :: "('e pointer_event \<times> nat) option"
  pendingDeactivate :: "(unit \<times> nat) option"
  animatingTimeouts :: "('e \<times> nat) list"
  hoverEvents :: nat
  timerLog :: "fired list"

text \<open>
  Modelled from the spec: \<open>debounce\<close> of \<open>@theme/utilities\<close> is not among the sources. The spec
  speaks of debounced timers: calling a debounced function clears its pending timer and
  sets one that runs the function with the arguments of this call after the delay;
  \<open>cancel\<close> clears the pending timer.
\<close>

definition debounce_call :: "'a \<Rightarrow> nat \<Rightarrow> ('a \<times> nat) option \<Rightarrow> ('a \<times> nat) option" where
  "debounce_call args wait pending = Some (args, wait)"

definition debounce_cancel :: "('a \<times> nat) option \<Rightarrow> ('a \<times> nat) option" where
  "debounce_cancel pending = None"

text \<open>\<open>activate\<close>\<close>

definition activate :: "'e pointer_event \<Rightarrow> 'e header_menu \<Rightarrow> 'e header_menu" where
  "activate event s =
     (let s1 = s\<lparr>pendingDeactivate := debounce_cancel (pendingDeactivate s)\<rparr>;
          s2 = s1\<lparr>pendingActivate := debounce_cancel (pendingActivate s1)\<rparr>
      in s2\<lparr>pendingActivate := debounce_call event ACTIVATE_DELAY (pendingActivate s2)\<rparr>)"

text \<open>\<open>#activateHandler\<close>\<close>

definition activateHandler :: "'e dom \<Rightarrow> 'e pointer_event \<Rightarrow> 'e header_menu \<Rightarrow> 'e header_menu" where
  "activateHandler d event s =
     (let s1 = s\<lparr>pendingDeactivate := debounce_cancel (pendingDeactivate s)\<rparr>;
          s2 = s1\<lparr>hoverEvents := Suc (hoverEvents s1)\<rparr>;
          s3 = s2\<lparr>hostDataAnimating := False\<rparr>
      in case target event of
           None \<Rightarrow> s3
         | Some t \<Rightarrow>
             (case findMenuItem d (Some t) of
                None \<Rightarrow> s3
              | Some item \<Rightarrow>
                  if Some item = activeItem s3 then s3
                  else
                    (let isDefaultSlot = (slot d t = []);
                         s4 = s3\<lparr>overflowExpanded := Some (if isDefaultSlot then ''false'' else ''true'')\<rparr>;
                         s5 = (case activeItem s4 of
                                 None \<Rightarrow> s4
                               | Some previouslyActiveItem \<Rightarrow>
                                   s4\<lparr>ariaExpanded := (ariaExpanded s4)(previouslyActiveItem := Some ''false'')\<rparr>);
                         s6 = s5\<lparr>activeItem := Some item,
                                 hostAriaExpanded := Some ''true'',
                                 ariaExpanded := (ariaExpanded s5)(item := Some ''true'')\<rparr>;
                         submenu0 = findSubmenu d (Some item);
                         overflowMenuHeight = (case overflowMenu d of None \<Rightarrow> 0 | Some m \<Rightarrow> offsetHeight d m);
                         submenu = (if submenu0 = None \<and> \<not> isDefaultSlot then overflowMenu d else submenu0);
                         height = (case submenu of None \<Rightarrow> 0 | Some sm \<Rightarrow> max (offsetHeight d sm) overflowMenuHeight)
                     in s6\<lparr>submenuHeight := Some height, submenuOpacity := Some ''1''\<rparr>)))"

text \<open>\<open>deactivate\<close>, the public method\<close>

definition deactivate :: "'e dom \<Rightarrow> 'e pointer_event \<Rightarrow> 'e header_menu \<Rightarrow> 'e header_menu" where
  "deactivate d event s =
     (let s1 = s\<lparr>pendingActivate := debounce_cancel (pendingActivate s)\<rparr>
      in case target event of
           None \<Rightarrow> s1
         | Some t \<Rightarrow>
             (let item = findMenuItem d (Some t);
                  submenu = findSubmenu d item;
                  related = relatedTarget event
              in if (case submenu of
                       None \<Rightarrow> False
                     | Some sm \<Rightarrow> (case related of None \<Rightarrow> False | Some r \<Rightarrow> element_contains d sm r))
                    \<or> (case related of
                          None \<Rightarrow> False
                        | Some r \<Rightarrow> closest_class d ''mega-menu__nested'' r \<noteq> None)
                 then s1
                 else if item = activeItem s1
                 then s1\<lparr>pendingDeactivate := debounce_call () DEACTIVATE_DELAY (pendingDeactivate s1)\<rparr>
                 else s1))"

text \<open>
  \<open>#deactivate\<close>, with its argument. The timeout that removes \<open>data-animating\<close> has the delay
  \<open>Math.max(0, animationDelay - 150)\<close>, which is the truncating difference of naturals.
\<close>

definition deactivate_item :: "'e dom \<Rightarrow> 'e option \<Rightarrow> 'e header_menu \<Rightarrow> 'e header_menu" where
  "deactivate_item d item s =
     (case item of
        None \<Rightarrow> s
      | Some i \<Rightarrow>
          if Some i \<noteq> activeItem s then s
          else if overflowHovered s then s
          else s\<lparr>submenuHeight := Some 0,
                 submenuOpacity := Some ''0'',
                 overflowExpanded := Some ''false'',
                 activeItem := None,
                 hostAriaExpanded := Some ''false'',
                 ariaExpanded := (ariaExpanded s)(i := Some ''false''),
                 dataAnimating := (dataAnimating s)(i := True),
                 animatingTimeouts := animatingTimeouts s @ [(i, animationDelay d - 150)]\<rparr>)"

text \<open>The debounced \<open>#deactivate\<close> is always called without arguments: the item is the active one.\<close>

definition deactivate_active :: "'e dom \<Rightarrow> 'e header_menu \<Rightarrow> 'e header_menu" where
  "deactivate_active d s = deactivate_item d (activeItem s) s"

text \<open>The listeners of \<open>connectedCallback\<close> for \<open>pointerleave\<close> and \<open>pointerenter\<close>.\<close>

definition overflow_pointerleave :: "'e header_menu \<Rightarrow> 'e header_menu" where
  "overflow_pointerleave s =
     s\<lparr>pendingDeactivate := debounce_call () DEACTIVATE_DELAY (pendingDeactivate s)\<rparr>"

definition host_pointerenter :: "'e dom \<Rightarrow> 'e \<Rightarrow> 'e header_menu \<Rightarrow> 'e header_menu" where
  "host_pointerenter d tgt s =
     (if closest_class d ''menu-list__submenu'' tgt \<noteq> None
      then s\<lparr>pendingDeactivate := debounce_cancel (pendingDeactivate s)\<rparr>
      else s)"

definition host_pointerleave :: "'e dom \<Rightarrow> 'e \<Rightarrow> 'e header_menu \<Rightarrow> 'e header_menu" where
  "host_pointerleave d tgt s =
     (if closest_class d ''menu-list__submenu'' tgt \<noteq> None
      then s\<lparr>pendingDeactivate := debounce_call () DEACTIVATE_DELAY (pendingDeactivate s)\<rparr>
      else s)"

text \<open>
  The passing of \<open>ms\<close> milliseconds with no event in between: a timer with no more than \<open>ms\<close>
  left runs its function, the others have \<open>ms\<close> less left. The timer of the activation comes
  first: it is set with the delay \<open>ACTIVATE_DELAY = 0\<close>, so it is due no later than a
  pending deactivation. A deactivation that the activation cancels does not run.
\<close>

definition run_activate_timer :: "'e dom \<Rightarrow> nat \<Rightarrow> 'e header_menu \<Rightarrow> 'e header_menu" where
  "run_activate_timer d ms s =
     (case pendingActivate s of
        None \<Rightarrow> s
      | Some (event, left) \<Rightarrow>
          if left \<le> ms
          then activateHandler d event
                 (s\<lparr>pendingActivate := None, timerLog := timerLog s @ [FiredActivateHandler]\<rparr>)
          else s\<lparr>pendingActivate := Some (event, left - ms)\<rparr>)"

definition run_deactivate_timer :: "'e dom \<Rightarrow> nat \<Rightarrow> 'e header_menu \<Rightarrow> 'e header_menu" where
  "run_deactivate_timer d ms s =
     (case pendingDeactivate s of
        None \<Rightarrow> s
      | Some (u, left) \<Rightarrow>
          if left \<le> ms
          then deactivate_active d
                 (s\<lparr>pendingDeactivate := None, timerLog := timerLog s @ [FiredDeactivate]\<rparr>)
          else s\<lparr>pendingDeactivate := Some (u, left - ms)\<rparr>)"

definition elapse :: "'e dom \<Rightarrow> nat \<Rightarrow> 'e header_menu \<Rightarrow> 'e header_menu" where
  "elapse d ms s = run_deactivate_timer d ms (run_activate_timer d ms s)"

text \<open>
  The two listeners above are added to the component with \<open>this.addEventListener\<close> and no
  \<open>capture\<close> option, and \<open>pointerenter\<close> and \<open>pointerleave\<close> events do not bubble: such a
  listener runs for an event whose target is the component itself, and for no event whose
  target is an element inside it.
\<close>

definition on_host :: "'e dom \<Rightarrow> 'e \<Rightarrow> ('e header_menu \<Rightarrow> 'e header_menu) \<Rightarrow> 'e header_menu \<Rightarrow> 'e header_menu" where
  "on_host d tgt listener s = (if tgt = host d then listener s else s)"

text \<open>
  What can happen to the hover machinery of the menu: a call of one of the two public
  methods; a \<open>pointerleave\<close> on the overflow menu, where its listener sits; a \<open>pointerenter\<close> or
  \<open>pointerleave\<close> with some element as its target; the passing of time; and the pointer
  coming to or leaving the overflow menu. Clicks are not among these events: the click
  listener for submenu toggles is \<open>submenu_toggle_click\<close> below.
\<close>

datatype 'e menu_event =
    Activate "'e pointer_event"
  | Deactivate "'e pointer_event"
  | OverflowPointerLeave
  | PointerEnter 'e
  | PointerLeave 'e
  | Elapse nat
  | OverflowHover bool

fun menu_step :: "'e dom \<Rightarrow> 'e header_menu \<Rightarrow> 'e menu_event \<Rightarrow> 'e header_menu" where
  "menu_step d s (Activate event) = activate event s"
| "menu_step d s (Deactivate event) = deactivate d event s"
| "menu_step d s OverflowPointerLeave = overflow_pointerleave s"
| "menu_step d s (PointerEnter tgt) = on_host d tgt (host_pointerenter d tgt) s"
| "menu_step d s (PointerLeave tgt) = on_host d tgt (host_pointerleave d tgt) s"
| "menu_step d s (Elapse ms) = elapse d ms s"
| "menu_step d s (OverflowHover h) = s\<lparr>overflowHovered := h\<rparr>"

definition menu_run :: "'e dom \<Rightarrow> 'e menu_event list \<Rightarrow> 'e header_menu \<Rightarrow> 'e header_menu" where
  "menu_run d events s = foldl (menu_step d) s events"

text \<open>
  The click listener for submenu toggles. \<open>tgt\<close> is the target of the click; the listener
  also prevents the default action of the click. A link without a parent element makes
  \<open>link.parentElement.querySelector\<close> throw before anything is written.
\<close>

definition submenu_toggle_click :: "'e dom \<Rightarrow> 'e \<Rightarrow> 'e header_menu \<Rightarrow> 'e header_menu" where
  "submenu_toggle_click d tgt s =
     (case closest_class d ''menu-list__link--has-submenu'' tgt of
        None \<Rightarrow> s
      | Some link \<Rightarrow>
          (case parentElement d link of
             None \<Rightarrow> s
           | Some parent \<Rightarrow>
               (let submenu = querySelector d (\<lambda>x. ''menu-list__submenu'' \<in> set (classList d x)) parent;
                    isExpanded = (ariaExpanded s link = Some ''true'');
                    s1 = s\<lparr>ariaExpanded := (ariaExpanded s)(link := Some (if isExpanded then ''false'' else ''true''))\<rparr>
                in case submenu of
                     None \<Rightarrow> s1
                   | Some sm \<Rightarrow> s1\<lparr>hidden := (hidden s1)(sm := isExpanded)\<rparr>)))"


text \<open>
  The invariant: a menu item (an element with \<open>ref="menuitem"\<close>, which is what \<open>findMenuItem\<close>
  returns) whose \<open>aria-expanded\<close> is \<open>true\<close> is the active item.
\<close>

definition expanded_is_active :: "'e dom \<Rightarrow> 'e header_menu \<Rightarrow> bool" where
  "expanded_is_active d s =
     (\<forall>i. ref d i = ''menuitem'' \<and> ariaExpanded s i = Some ''true'' \<longrightarrow> activeItem s = Some i)"


section \<open>Concrete inputs\<close>

text \<open>Inputs at which the theorems below are evaluated.\<close>

definition demo_variants :: "variant list" where
  "demo_variants =
     [\<lparr>variant_id = 11, options = [''S'', ''Red''], available = True\<rparr>,
      \<lparr>variant_id = 12, options = [''M'', ''Red''], available = False\<rparr>,
      \<lparr>variant_id = 13, options = [''M'', ''Blue''], available = True\<rparr>]"

definition demo_product :: jsval where
  "demo_product = JObj [(''id'', JNum 7), (''title'', JStr ''Mug''), (''price'', JNum 1999),
                        (''images'', JArr [JStr ''mug.png'']), (''handle'', JStr ''mug'')]"

definition always_renders :: "product_data \<Rightarrow> bool" where
  "always_renders d = True"

definition good_network :: platform where
  "good_network = \<lparr> fetch = (\<lambda>url. Response True ''<script data-product-json>''),
                     product_json_text = (\<lambda>html. Some ''{}''),
                     JSON_parse = (\<lambda>txt. Some demo_product) \<rparr>"

definition failing_network :: platform where
  "failing_network = \<lparr> fetch = (\<lambda>url. Response False ''Not Found''),
                        product_json_text = (\<lambda>html. None),
                        JSON_parse = (\<lambda>txt. None) \<rparr>"

definition closed_drawer :: quick_view where
  "closed_drawer = \<lparr> cachedContent = Map.empty, drawerContent = Loading,
                      dialogOpen = False, fetches = [] \<rparr>"




definition click_without_id :: click_event where
  "click_without_id = \<lparr> quickViewBtn = Some \<lparr>productId = None, productHandle = Some ''mug''\<rparr>,
                         defaultPrevented = False, propagationStopped = False \<rparr>"

definition click_on_mug :: click_event where
  "click_on_mug = \<lparr> quickViewBtn = Some \<lparr>productId = Some ''7'', productHandle = Some ''mug''\<rparr>,
                     defaultPrevented = False, propagationStopped = False \<rparr>"

text \<open>
  A menu with two items. Elements are numbered: 0 is the component; 1 is the list item of
  the first menu item, 2 its link (the menu item, with a submenu toggle), 3 its submenu; 4, 5
  and 6 the same for the second item; 7 is the overflow menu, in the shadow tree of the
  overflow list.
\<close>

definition demo_dom :: "nat dom" where
  "demo_dom =
     \<lparr> host = 0,
       ancestors = (\<lambda>e. if e = 2 \<or> e = 3 then [1, 0] else if e = 5 \<or> e = 6 then [4, 0]
                         else if e = 1 \<or> e = 4 then [0] else []),
       descendants = (\<lambda>e. if e = 0 then [1, 2, 3, 4, 5, 6] else if e = 1 then [2, 3]
                           else if e = 4 then [5, 6] else []),
       classList = (\<lambda>e. if e = 2 \<or> e = 5 then [''menu-list__link'', ''menu-list__link--has-submenu'']
                         else if e = 3 \<or> e = 6 then [''menu-list__submenu''] else []),
       slot = (\<lambda>e. []),
       ref = (\<lambda>e. if e = 2 \<or> e = 5 then ''menuitem'' else if e = 3 \<or> e = 6 then ''submenu[]'' else []),
       isHTMLElement = (\<lambda>e. True),
       offsetHeight = (\<lambda>e. if e = 3 then 200 else if e = 6 then 120 else 0),
       overflowMenu = Some 7,
       animationDelay = 200 \<rparr>"

definition closed_menu :: "nat header_menu" where
  "closed_menu =
     \<lparr> activeItem = None,
       ariaExpanded = (\<lambda>e. if e = 2 \<or> e = 5 then Some ''false'' else None),
       hidden = (\<lambda>e. e = 3 \<or> e = 6),
       dataAnimating = (\<lambda>e. False),
       hostAriaExpanded = None,
       hostDataAnimating = False,
       overflowExpanded = None,
       submenuHeight = None,
       submenuOpacity = None,
       overflowHovered = False,
       pendingActivate = None,
       pendingDeactivate = None,
       animatingTimeouts = [],
       hoverEvents = 0,
       timerLog = [] \<rparr>"

definition enter_first :: "nat pointer_event" where
  "enter_first = \<lparr> target = Some 1, relatedTarget = None \<rparr>"

definition enter_second :: "nat pointer_event" where
  "enter_second = \<lparr> target = Some 4, relatedTarget = None \<rparr>"

definition leave_first :: "nat pointer_event" where
  "leave_first = \<lparr> target = Some 1, relatedTarget = None \<rparr>"

definition leave_second :: "nat pointer_event" where
  "leave_second = \<lparr> target = Some 4, relatedTarget = None \<rparr>"

text \<open>The first item is active, nothing is pending.\<close>

definition first_active_menu :: "nat header_menu" where
  "first_active_menu = menu_run demo_dom [Activate enter_first, Elapse 0] closed_menu"

text \<open>The markup has the second menu item expanded from the start.\<close>

definition preexpanded_menu :: "nat header_menu" where
  "preexpanded_menu = closed_menu\<lparr>ariaExpanded := (ariaExpanded closed_menu)(5 := Some ''true'')\<rparr>"

text \<open>The first item is active and the pointer rests on the overflow menu.\<close>

definition hovered_menu :: "nat header_menu" where
  "hovered_menu = menu_run demo_dom [Activate enter_first, Elapse 0, OverflowHover True] closed_menu"

text \<open>The first link is expanded while its submenu still carries \<open>hidden\<close>.\<close>

definition expanded_hidden_menu :: "nat header_menu" where
  "expanded_hidden_menu = closed_menu\<lparr>ariaExpanded := (ariaExpanded closed_menu)(2 := Some ''true'')\<rparr>"

text \<open>No submenu carries \<open>hidden\<close>; the links are collapsed.\<close>

definition collapsed_visible_menu :: "nat header_menu" where
  "collapsed_visible_menu = closed_menu\<lparr>hidden := (\<lambda>e. False)\<rparr>"


section \<open>Properties of the quantity selector\<close>

lemma of_char_digit_char: "d < 10 \<Longrightarrow> (of_char (digit_char d) :: nat) = 48 + d"
  by (simp add: digit_char_def)

lemma is_digit_digit_char: "d < 10 \<Longrightarrow> is_digit (digit_char d)"
  by (simp add: is_digit_def of_char_digit_char)

lemma digit_of_digit_char: "d < 10 \<Longrightarrow> digit_of (digit_char d) = d"
  by (simp add: digit_of_def of_char_digit_char)

lemma string_of_nat_digits: "list_all is_digit (string_of_nat n)"
proof (induction n rule: string_of_nat.induct)
  case (1 n)
  show ?case
  proof (cases "n < 10")
    case True
    then show ?thesis
      by (subst string_of_nat.simps) (simp add: is_digit_digit_char)
  next
    case False
    with 1 show ?thesis
      by (subst string_of_nat.simps) (simp add: is_digit_digit_char)
  qed
qed

lemma string_of_nat_nonempty: "string_of_nat n \<noteq> []"
  by (subst string_of_nat.simps) simp

lemma digits_to_nat_snoc: "digits_to_nat (ds @ [c]) = 10 * digits_to_nat ds + digit_of c"
  by (simp add: digits_to_nat_def)

lemma digits_to_nat_string_of_nat: "digits_to_nat (string_of_nat n) = n"
proof (induction n rule: string_of_nat.induct)
  case (1 n)
  show ?case
  proof (cases "n < 10")
    case True
    then show ?thesis
      by (subst string_of_nat.simps) (simp add: digits_to_nat_def digit_of_digit_char)
  next
    case False
    with 1 have "digits_to_nat (string_of_nat (n div 10)) = n div 10"
      by simp
    with False show ?thesis
      by (subst string_of_nat.simps) (simp add: digits_to_nat_snoc digit_of_digit_char)
  qed
qed

lemma is_digit_not_space: "is_digit c \<Longrightarrow> \<not> is_space c"
  by (auto simp: is_digit_def is_space_def)

lemma is_digit_not_sign: "is_digit c \<Longrightarrow> c \<noteq> CHR ''-'' \<and> c \<noteq> CHR ''+''"
  by (auto simp: is_digit_def)

lemma takeWhile_all: "list_all P xs \<Longrightarrow> takeWhile P xs = xs"
  by (induction xs) auto

lemma parseInt_digits:
  assumes "list_all is_digit ds" and "ds \<noteq> []"
  shows "parseInt ds = Some (int (digits_to_nat ds))"
proof -
  obtain c r where cr: "ds = c # r"
    using assms(2) by (cases ds) auto
  have d: "is_digit c"
    using assms(1) cr by simp
  have dw: "dropWhile is_space ds = ds"
    using is_digit_not_space [OF d] cr by simp
  have tw: "takeWhile is_digit ds = ds"
    using assms(1) by (rule takeWhile_all)
  have neg: "(case ds of [] \<Rightarrow> False | c # _ \<Rightarrow> c = CHR ''-'') = False"
    using is_digit_not_sign [OF d] cr by simp
  have rest: "(case ds of [] \<Rightarrow> [] | c # r \<Rightarrow> if c = CHR ''-'' \<or> c = CHR ''+'' then r else ds) = ds"
    using is_digit_not_sign [OF d] cr by simp
  show ?thesis
    unfolding parseInt_def Let_def dw neg rest tw using assms(2) by simp
qed

lemma parseInt_string_of_nat: "parseInt (string_of_nat n) = Some (int n)"
  using parseInt_digits [OF string_of_nat_digits string_of_nat_nonempty, of n]
  by (simp add: digits_to_nat_string_of_nat)

lemma parseInt_js_string: "0 \<le> n \<Longrightarrow> parseInt (js_string_of_int n) = Some n"
  by (simp add: js_string_of_int_def parseInt_string_of_nat)

lemma currentValue_js_string: "1 \<le> n \<Longrightarrow> currentValue (js_string_of_int n) = n"
  by (simp add: currentValue_def parseInt_js_string)

lemma minus_click_string:
  "1 \<le> n \<Longrightarrow> minus_click (js_string_of_int n) = js_string_of_int (if 1 < n then n - 1 else n)"
  by (simp add: minus_click_def currentValue_js_string)

lemma plus_click_string:
  "1 \<le> n \<Longrightarrow> plus_click (js_string_of_int n) = js_string_of_int (if n < 999 then n + 1 else n)"
  by (simp add: plus_click_def currentValue_js_string)

lemma initial_quantity_string: "initial_quantity = js_string_of_int 1"
  by code_simp

lemma foldl_button_click_range:
  "1 \<le> n \<Longrightarrow> n \<le> 999 \<Longrightarrow>
   \<exists>m. 1 \<le> m \<and> m \<le> 999 \<and> foldl button_click (js_string_of_int n) bs = js_string_of_int m"
proof (induction bs arbitrary: n)
  case Nil
  then show ?case by auto
next
  case (Cons b bs)
  show ?case
  proof (cases b)
    case MinusBtn
    have "1 \<le> (if 1 < n then n - 1 else n)" "(if 1 < n then n - 1 else n) \<le> 999"
      using Cons.prems by auto
    from Cons.IH [OF this] MinusBtn Cons.prems show ?thesis
      by (simp add: minus_click_string)
  next
    case PlusBtn
    have "1 \<le> (if n < 999 then n + 1 else n)" "(if n < 999 then n + 1 else n) \<le> 999"
      using Cons.prems by auto
    from Cons.IH [OF this] PlusBtn Cons.prems show ?thesis
      by (simp add: plus_click_string)
  qed
qed

text \<open>
  Claim C8. Starting from the initial value 1, after every sequence of clicks on the minus
  and plus buttons the quantity input holds the decimal string of an integer between 1 and
  999. A minus click at 1 and a plus click at 999 leave the value as it is; every other
  click decrements or increments it by exactly 1.
\<close>

theorem quantity_stays_in_range:
  "(\<exists>n. 1 \<le> n \<and> n \<le> 999 \<and> quantity_after bs = js_string_of_int n
        \<and> parseInt (quantity_after bs) = Some n)
   \<and> minus_click (js_string_of_int 1) = js_string_of_int 1
   \<and> plus_click (js_string_of_int 999) = js_string_of_int 999
   \<and> (\<forall>n. 1 < n \<and> n \<le> 999 \<longrightarrow> minus_click (js_string_of_int n) = js_string_of_int (n - 1))
   \<and> (\<forall>n. 1 \<le> n \<and> n < 999 \<longrightarrow> plus_click (js_string_of_int n) = js_string_of_int (n + 1))"
proof -
  obtain m where m: "1 \<le> m" "m \<le> 999" "quantity_after bs = js_string_of_int m"
    using foldl_button_click_range [of 1 bs]
    by (auto simp: quantity_after_def initial_quantity_string)
  then have "parseInt (quantity_after bs) = Some m"
    by (simp add: parseInt_js_string)
  with m have first: "\<exists>n. 1 \<le> n \<and> n \<le> 999 \<and> quantity_after bs = js_string_of_int n
        \<and> parseInt (quantity_after bs) = Some n"
    by blast
  show ?thesis
    using first by (simp add: minus_click_string plus_click_string)
qed

theorem quantity_stays_in_range_witness:
  "quantity_after [PlusBtn, PlusBtn, MinusBtn, MinusBtn, MinusBtn, PlusBtn] = ''2''
   \<and> (\<exists>n. 1 \<le> n \<and> n \<le> 999
          \<and> quantity_after [PlusBtn, PlusBtn, MinusBtn, MinusBtn, MinusBtn, PlusBtn] = js_string_of_int n)
   \<and> minus_click (js_string_of_int 7) = js_string_of_int 6
   \<and> plus_click (js_string_of_int 998) = js_string_of_int 999"
proof -
  have ev: "quantity_after [PlusBtn, PlusBtn, MinusBtn, MinusBtn, MinusBtn, PlusBtn] = ''2''"
    by code_simp
  have a: "(1::int) < 7 \<and> (7::int) \<le> 999" and b: "(1::int) \<le> 998 \<and> (998::int) < 999"
    by simp_all
  have c: "minus_click (js_string_of_int 7) = js_string_of_int (7 - 1)"
    using quantity_stays_in_range [of "[]"] a by blast
  have d: "plus_click (js_string_of_int 998) = js_string_of_int (998 + 1)"
    using quantity_stays_in_range [of "[]"] b by blast
  have e: "\<exists>n. 1 \<le> n \<and> n \<le> 999
          \<and> quantity_after [PlusBtn, PlusBtn, MinusBtn, MinusBtn, MinusBtn, PlusBtn] = js_string_of_int n"
    using quantity_stays_in_range [of "[PlusBtn, PlusBtn, MinusBtn, MinusBtn, MinusBtn, PlusBtn]"]
    by blast
  from c d e ev show ?thesis
    by simp
qed

section \<open>Properties of the selected variant\<close>

lemma every_option_matches_iff:
  "every_option_matches sel v \<longleftrightarrow>
     (\<forall>i<length sel. i < length (options v) \<and> options v ! i = sel ! i)"
proof
  assume m: "every_option_matches sel v"
  show "\<forall>i<length sel. i < length (options v) \<and> options v ! i = sel ! i"
  proof (intro allI impI)
    fix i
    assume "i < length sel"
    then have "(i, sel ! i) \<in> set (enumerate 0 sel)"
      by (simp add: in_set_enumerate_eq)
    with m have "option_at v i = Some (sel ! i)"
      by (auto simp: every_option_matches_def list_all_iff)
    then show "i < length (options v) \<and> options v ! i = sel ! i"
      by (simp add: option_at_def split: if_splits)
  qed
next
  assume a: "\<forall>i<length sel. i < length (options v) \<and> options v ! i = sel ! i"
  show "every_option_matches sel v"
    unfolding every_option_matches_def list_all_iff
  proof
    fix x
    assume "x \<in> set (enumerate 0 sel)"
    then have "fst x < length sel" "snd x = sel ! fst x"
      by (auto simp: in_set_enumerate_eq)
    with a show "case x of (index, opt) \<Rightarrow> option_at v index = Some opt"
      by (cases x) (simp add: option_at_def)
  qed
qed

lemma getSelectedVariant_found:
  "find (every_option_matches (selectedOptions groups)) variants = Some v \<Longrightarrow>
   getSelectedVariant variants groups = Some v"
  by (simp add: getSelectedVariant_def)

lemma getSelectedVariant_fallback:
  "find (every_option_matches (selectedOptions groups)) variants = None \<Longrightarrow> variants \<noteq> [] \<Longrightarrow>
   getSelectedVariant variants groups = Some (variants ! 0)"
  by (cases variants) (simp_all add: getSelectedVariant_def)

text \<open>
  Claim C9. For a product with a non-empty variants array and any selection, a variant
  agrees with the selection when its options equal the selected values at each selected
  index. If some variant agrees, \<open>#getSelectedVariant\<close> returns the first one that does; if
  none agrees it returns \<open>product.variants[0]\<close>, so that add-to-cart posts the id of the first
  variant instead of failing.
\<close>

theorem getSelectedVariant_first_match_or_first:
  assumes "variants \<noteq> []"
  shows "let sel = selectedOptions groups;
             agrees = (\<lambda>v. \<forall>i<length sel. i < length (options v) \<and> options v ! i = sel ! i)
         in ((\<exists>k<length variants. agrees (variants ! k)) \<longrightarrow>
               (\<exists>k<length variants. getSelectedVariant variants groups = Some (variants ! k)
                   \<and> agrees (variants ! k) \<and> (\<forall>j<k. \<not> agrees (variants ! j))))
          \<and> ((\<forall>k<length variants. \<not> agrees (variants ! k)) \<longrightarrow>
               getSelectedVariant variants groups = Some (variants ! 0)
               \<and> handleAddToCart_formData variants groups q
                   = Some (variant_id (variants ! 0), currentValue q))"
proof -
  let ?P = "every_option_matches (selectedOptions groups)"
  have found: "\<exists>k<length variants. getSelectedVariant variants groups = Some (variants ! k)
                   \<and> ?P (variants ! k) \<and> (\<forall>j<k. \<not> ?P (variants ! j))"
    if "\<exists>k<length variants. ?P (variants ! k)"
  proof -
    from that have "find ?P variants \<noteq> None"
      by (auto simp: find_None_iff in_set_conv_nth)
    then obtain v where v: "find ?P variants = Some v"
      by auto
    then obtain k where "k < length variants" "?P (variants ! k)" "v = variants ! k"
      "\<forall>j<k. \<not> ?P (variants ! j)"
      by (auto simp: find_Some_iff)
    with getSelectedVariant_found [OF v] show ?thesis
      by blast
  qed
  have fallback: "getSelectedVariant variants groups = Some (variants ! 0)"
    if "\<forall>k<length variants. \<not> ?P (variants ! k)"
  proof -
    from that have "find ?P variants = None"
      by (auto simp: find_None_iff in_set_conv_nth)
    from getSelectedVariant_fallback [OF this assms] show ?thesis .
  qed
  from found fallback show ?thesis
    unfolding Let_def every_option_matches_iff [symmetric]
    by (auto simp: handleAddToCart_formData_def)
qed

theorem getSelectedVariant_first_match_or_first_witness:
  "demo_variants \<noteq> []
   \<and> getSelectedVariant demo_variants [Some ''M'', Some ''Green''] = Some (demo_variants ! 0)
   \<and> handleAddToCart_formData demo_variants [Some ''M'', Some ''Green''] ''3'' = Some (11, 3)
   \<and> getSelectedVariant demo_variants [Some ''M'', None, Some ''Red''] = Some (demo_variants ! 1)"
proof -
  let ?sel = "selectedOptions [Some ''M'', Some ''Green'']"
  have ne: "demo_variants \<noteq> []"
    by (simp add: demo_variants_def)
  have len: "length demo_variants = 3"
    by (simp add: demo_variants_def)
  have no: "\<not> every_option_matches ?sel (demo_variants ! 0)"
    "\<not> every_option_matches ?sel (demo_variants ! 1)"
    "\<not> every_option_matches ?sel (demo_variants ! 2)"
    by code_simp+
  have none: "\<forall>k<length demo_variants.
      \<not> (\<forall>i<length ?sel. i < length (options (demo_variants ! k))
             \<and> options (demo_variants ! k) ! i = ?sel ! i)"
    unfolding every_option_matches_iff [symmetric] len
  proof (intro allI impI)
    fix k :: nat
    assume "k < 3"
    then have "k = 0 \<or> k = 1 \<or> k = 2"
      by arith
    with no show "\<not> every_option_matches ?sel (demo_variants ! k)"
      by auto
  qed
  have cur: "currentValue ''3'' = 3"
    by code_simp
  have vid: "variant_id (demo_variants ! 0) = 11"
    by (simp add: demo_variants_def)
  have second: "getSelectedVariant demo_variants [Some ''M'', None, Some ''Red''] = Some (demo_variants ! 1)"
    by code_simp
  from getSelectedVariant_first_match_or_first [OF ne, of "[Some ''M'', Some ''Green'']" "''3''"] none
  have "getSelectedVariant demo_variants [Some ''M'', Some ''Green''] = Some (demo_variants ! 0)
        \<and> handleAddToCart_formData demo_variants [Some ''M'', Some ''Green''] ''3''
            = Some (variant_id (demo_variants ! 0), currentValue ''3'')"
    unfolding Let_def by blast
  with ne cur vid second show ?thesis
    by simp
qed



section \<open>Properties of the media gallery\<close>

lemma length_imageItems: "length (imageItems imgs) = min (length imgs) 5"
  by (simp add: imageItems_def min.commute)

lemma nth_imageItems: "i < length (imageItems imgs) \<Longrightarrow> imageItems imgs ! i = media_item (imgs ! i)"
  by (simp add: imageItems_def)

lemma media_item_markup:
  "media_item img =
     ''\<newline>      <div class=\"quick-view-media-item\">\<newline>        <img src=\"'' @ img @
     ''\" alt=\"Product image\" loading=\"lazy\">\<newline>      </div>\<newline>    ''"
  by (simp add: media_item_def dquote_def)

lemma gallery_open_markup:
  "gallery_open =
     ''\<newline>      <div class=\"quick-view-media-gallery\">\<newline>        <div class=\"quick-view-media-scroll\">\<newline>          ''"
  by (simp add: gallery_open_def dquote_def)

lemma occurrences_skip:
  "c \<notin> set xs \<Longrightarrow> occurrences (c # ps) (xs @ ys) = occurrences (c # ps) ys"
  by (induction xs) auto

lemma occurrences_media_item:
  assumes "CHR ''<'' \<notin> set img"
  shows "occurrences ''<img '' (media_item img @ rest) = Suc (occurrences ''<img '' rest)"
    and "occurrences ''<div class=\"quick-view-media-item\">'' (media_item img @ rest)
           = Suc (occurrences ''<div class=\"quick-view-media-item\">'' rest)"
  using assms by (simp_all add: media_item_def dquote_def occurrences_skip)

lemma occurrences_gallery_open:
  "occurrences ''<img '' (gallery_open @ rest) = occurrences ''<img '' rest"
  "occurrences ''<div class=\"quick-view-media-item\">'' (gallery_open @ rest)
     = occurrences ''<div class=\"quick-view-media-item\">'' rest"
  by (simp_all add: gallery_open_def dquote_def)

lemma occurrences_gallery_close:
  "occurrences ''<img '' gallery_close = 0"
  "occurrences ''<div class=\"quick-view-media-item\">'' gallery_close = 0"
  by (simp_all add: gallery_close_def)

lemma occurrences_items:
  assumes "\<forall>img\<in>set xs. CHR ''<'' \<notin> set img"
  shows "occurrences ''<img '' (concat (map media_item xs) @ rest)
           = length xs + occurrences ''<img '' rest"
    and "occurrences ''<div class=\"quick-view-media-item\">'' (concat (map media_item xs) @ rest)
           = length xs + occurrences ''<div class=\"quick-view-media-item\">'' rest"
  using assms by (induction xs) (simp_all add: occurrences_media_item)

lemma occurrences_gallery:
  assumes "imgs \<noteq> []" and "\<forall>img\<in>set (take 5 imgs). CHR ''<'' \<notin> set img"
  shows "occurrences ''<img '' (buildMediaGallery (Some imgs)) = min (length imgs) 5"
    and "occurrences ''<div class=\"quick-view-media-item\">'' (buildMediaGallery (Some imgs))
           = min (length imgs) 5"
  using assms
  by (simp_all add: buildMediaGallery_def imageItems_def occurrences_gallery_open
        occurrences_items occurrences_gallery_close min.commute)

text \<open>
  Claim C10. \<open>#buildMediaGallery\<close> returns the empty string when the images array is missing
  or empty. Otherwise its markup is the gallery wrapper around exactly \<open>min(length, 5)\<close> image
  items: the item at position \<open>i\<close> is the \<open>div\<close> of class \<open>quick-view-media-item\<close> whose \<open>img\<close> has
  the image at position \<open>i\<close> of the input as its \<open>src\<close>, so the items are those of the first
  five images, in the order of the array, and images past the fifth do not change the markup.
  Read as text, the markup of images that hold no \<open><\<close> has exactly \<open>min(length, 5)\<close> opening
  tags of an item and as many \<open>img\<close> tags.
\<close>

theorem buildMediaGallery_at_most_five:
  "buildMediaGallery None = [] \<and> buildMediaGallery (Some []) = []
   \<and> (imgs \<noteq> [] \<longrightarrow>
        (\<exists>items. buildMediaGallery (Some imgs) =
              ''\<newline>      <div class=\"quick-view-media-gallery\">\<newline>        <div class=\"quick-view-media-scroll\">\<newline>          ''
              @ concat items @ ''\<newline>        </div>\<newline>      </div>\<newline>    ''
            \<and> length items = min (length imgs) 5
            \<and> (\<forall>i<length items. items ! i =
                  ''\<newline>      <div class=\"quick-view-media-item\">\<newline>        <img src=\"''
                  @ imgs ! i @
                  ''\" alt=\"Product image\" loading=\"lazy\">\<newline>      </div>\<newline>    ''))
        \<and> buildMediaGallery (Some imgs) = buildMediaGallery (Some (take 5 imgs))
        \<and> ((\<forall>img\<in>set (take 5 imgs). CHR ''<'' \<notin> set img) \<longrightarrow>
              occurrences ''<div class=\"quick-view-media-item\">'' (buildMediaGallery (Some imgs))
                = min (length imgs) 5
              \<and> occurrences ''<img '' (buildMediaGallery (Some imgs)) = min (length imgs) 5))"
proof -
  have eq: "buildMediaGallery (Some imgs) = gallery_open @ concat (imageItems imgs) @ gallery_close"
    if "imgs \<noteq> []"
    using that by (simp add: buildMediaGallery_def)
  have five: "buildMediaGallery (Some imgs) = buildMediaGallery (Some (take 5 imgs))"
    by (cases imgs) (simp_all add: buildMediaGallery_def imageItems_def)
  have empty: "buildMediaGallery None = []" "buildMediaGallery (Some []) = []"
    by (simp_all add: buildMediaGallery_def)
  have items: "\<exists>items. buildMediaGallery (Some imgs) =
              ''\<newline>      <div class=\"quick-view-media-gallery\">\<newline>        <div class=\"quick-view-media-scroll\">\<newline>          ''
              @ concat items @ ''\<newline>        </div>\<newline>      </div>\<newline>    ''
            \<and> length items = min (length imgs) 5
            \<and> (\<forall>i<length items. items ! i =
                  ''\<newline>      <div class=\"quick-view-media-item\">\<newline>        <img src=\"''
                  @ imgs ! i @
                  ''\" alt=\"Product image\" loading=\"lazy\">\<newline>      </div>\<newline>    '')"
    if "imgs \<noteq> []"
  proof (intro exI conjI)
    show "buildMediaGallery (Some imgs) =
              ''\<newline>      <div class=\"quick-view-media-gallery\">\<newline>        <div class=\"quick-view-media-scroll\">\<newline>          ''
              @ concat (imageItems imgs) @ ''\<newline>        </div>\<newline>      </div>\<newline>    ''"
      using eq [OF that] by (simp add: gallery_open_markup gallery_close_def)
    show "length (imageItems imgs) = min (length imgs) 5"
      by (rule length_imageItems)
    show "\<forall>i<length (imageItems imgs). imageItems imgs ! i =
                  ''\<newline>      <div class=\"quick-view-media-item\">\<newline>        <img src=\"''
                  @ imgs ! i @
                  ''\" alt=\"Product image\" loading=\"lazy\">\<newline>      </div>\<newline>    ''"
      by (simp add: nth_imageItems media_item_markup)
  qed
  from empty items five occurrences_gallery [of imgs] show ?thesis
    by blast
qed

theorem buildMediaGallery_at_most_five_witness:
  "occurrences ''<div class=\"quick-view-media-item\">''
       (buildMediaGallery (Some [''a.png'', ''b.png'', ''c.png'', ''d.png'', ''e.png'', ''f.png'', ''g.png''])) = 5
   \<and> occurrences ''<img ''
       (buildMediaGallery (Some [''a.png'', ''b.png'', ''c.png'', ''d.png'', ''e.png'', ''f.png'', ''g.png''])) = 5
   \<and> buildMediaGallery (Some [''a.png'', ''b.png'', ''c.png'', ''d.png'', ''e.png'', ''f.png'', ''g.png''])
       = buildMediaGallery (Some [''a.png'', ''b.png'', ''c.png'', ''d.png'', ''e.png''])
   \<and> occurrences ''<img '' (buildMediaGallery (Some [''a.png'', ''b.png''])) = 2"
proof -
  let ?seven = "[''a.png'', ''b.png'', ''c.png'', ''d.png'', ''e.png'', ''f.png'', ''g.png'']"
  let ?two = "[''a.png'', ''b.png'']"
  have ne: "?seven \<noteq> []" "?two \<noteq> []"
    by simp_all
  have clean: "\<forall>img\<in>set (take 5 ?seven). CHR ''<'' \<notin> set img"
    "\<forall>img\<in>set (take 5 ?two). CHR ''<'' \<notin> set img"
    by simp_all
  have len: "min (length ?seven) 5 = 5" "min (length ?two) 5 = 2" "take 5 ?seven = [''a.png'', ''b.png'', ''c.png'', ''d.png'', ''e.png'']"
    by simp_all
  from buildMediaGallery_at_most_five [of ?seven] ne(1) clean(1)
  have a: "occurrences ''<div class=\"quick-view-media-item\">'' (buildMediaGallery (Some ?seven))
             = min (length ?seven) 5"
    and b: "occurrences ''<img '' (buildMediaGallery (Some ?seven)) = min (length ?seven) 5"
    and c: "buildMediaGallery (Some ?seven) = buildMediaGallery (Some (take 5 ?seven))"
    by blast+
  from buildMediaGallery_at_most_five [of ?two] ne(2) clean(2)
  have d: "occurrences ''<img '' (buildMediaGallery (Some ?two)) = min (length ?two) 5"
    by blast
  from a b c d show ?thesis
    unfolding len by simp
qed

section \<open>Properties of loading product data\<close>

lemma loadProductData_hit:
  "cachedContent s h = Some d \<Longrightarrow>
   loadProductData renders env h s =
     s\<lparr>drawerContent := (if renders d then ProductView d else ErrorState)\<rparr>"
  by (simp add: loadProductData_def loadProductData_try_def updateDrawerContent_def
        showLoading_def showError_def)

lemma loadProductData_miss_fetches:
  "cachedContent s h = None \<Longrightarrow>
   fetches (loadProductData renders env h s) = fetches s @ [product_url h]"
  by (simp add: loadProductData_def loadProductData_try_def updateDrawerContent_def
        showLoading_def showError_def Let_def
      split: fetch_result.splits sum.splits)

lemma loadProductData_miss_stored:
  "cachedContent s h = None \<Longrightarrow> fetch env (product_url h) = Response True html \<Longrightarrow>
   extractProductData env html = Inr d \<Longrightarrow>
   loadProductData renders env h s =
     s\<lparr>fetches := fetches s @ [product_url h],
        cachedContent := (cachedContent s)(h \<mapsto> d),
        drawerContent := (if renders d then ProductView d else ErrorState)\<rparr>"
  by (simp add: loadProductData_def loadProductData_try_def updateDrawerContent_def
        showLoading_def showError_def Let_def)

lemma loadProductData_miss_failed:
  "cachedContent s h = None \<Longrightarrow>
   fetch env (product_url h) = Rejected
   \<or> (\<exists>html. fetch env (product_url h) = Response False html)
   \<or> (\<exists>html e. fetch env (product_url h) = Response True html \<and> extractProductData env html = Inl e) \<Longrightarrow>
   loadProductData renders env h s =
     s\<lparr>fetches := fetches s @ [product_url h], drawerContent := ErrorState\<rparr>"
  by (auto simp: loadProductData_def loadProductData_try_def showLoading_def showError_def Let_def)

lemma extractProductData_no_element:
  "product_json_text env html = None \<Longrightarrow>
   extractProductData env html = Inl (Error ''Product data not found'')"
  by (simp add: extractProductData_def)

lemma loadProductData_keeps_entry:
  "cachedContent s k = Some d \<Longrightarrow> cachedContent (loadProductData renders env h s) k = Some d"
  by (auto simp: loadProductData_def loadProductData_try_def updateDrawerContent_def
        showLoading_def showError_def Let_def
      split: option.splits fetch_result.splits sum.splits)















text \<open>
  Claim C2. When a load has to fetch (the handle has no entry in \<open>#cachedContent\<close>) and the
  response is not ok, or the fetched document has no \<open>[data-product-json]\<close> element, so that
  \<open>#extractProductData\<close> throws, \<open>#loadProductData\<close> shows the error state in the drawer and
  leaves the map unchanged: no entry is added for the handle.
\<close>

theorem loadProductData_error_keeps_cache:
  assumes "cachedContent s h = None"
      and "(\<exists>html. fetch env (product_url h) = Response False html)
           \<or> (\<exists>html. fetch env (product_url h) = Response True html
                  \<and> product_json_text env html = None)"
  shows "drawerContent (loadProductData renders env h s) = ErrorState
         \<and> cachedContent (loadProductData renders env h s) = cachedContent s
         \<and> cachedContent (loadProductData renders env h s) h = None
         \<and> (\<forall>html. product_json_text env html = None \<longrightarrow>
               extractProductData env html = Inl (Error ''Product data not found''))"
proof -
  from assms(2) have "fetch env (product_url h) = Rejected
   \<or> (\<exists>html. fetch env (product_url h) = Response False html)
   \<or> (\<exists>html e. fetch env (product_url h) = Response True html \<and> extractProductData env html = Inl e)"
    using extractProductData_no_element by blast
  from loadProductData_miss_failed [OF assms(1) this]
  have "loadProductData renders env h s =
     s\<lparr>fetches := fetches s @ [product_url h], drawerContent := ErrorState\<rparr>" .
  with assms(1) show ?thesis
    by (simp add: extractProductData_no_element)
qed

theorem loadProductData_error_keeps_cache_witness:
  "cachedContent closed_drawer ''mug'' = None
   \<and> fetch failing_network (product_url ''mug'') = Response False ''Not Found''
   \<and> drawerContent (loadProductData always_renders failing_network ''mug'' closed_drawer) = ErrorState
   \<and> cachedContent (loadProductData always_renders failing_network ''mug'' closed_drawer) ''mug'' = None"
proof -
  have miss: "cachedContent closed_drawer ''mug'' = None"
    by (simp add: closed_drawer_def)
  have resp: "fetch failing_network (product_url ''mug'') = Response False ''Not Found''"
    by (simp add: failing_network_def)
  then have "(\<exists>html. fetch failing_network (product_url ''mug'') = Response False html)
           \<or> (\<exists>html. fetch failing_network (product_url ''mug'') = Response True html
                  \<and> product_json_text failing_network html = None)"
    by blast
  from loadProductData_error_keeps_cache [OF miss this, of always_renders] miss resp
  show ?thesis
    by blast
qed


section \<open>Properties of the quick-view click handler\<close>

text \<open>
  Claim C5 as stated fails: a click on a quick-view button whose dataset lacks the product
  id has its default action prevented all the same, because \<open>preventDefault\<close> and
  \<open>stopPropagation\<close> run before the dataset is read.
\<close>

theorem handleQuickViewClick_prevents_without_id:
  "quickViewBtn click_without_id = Some \<lparr>productId = None, productHandle = Some ''mug''\<rparr>
   \<and> \<not> defaultPrevented click_without_id
   \<and> defaultPrevented (fst (handleQuickViewClick always_renders good_network click_without_id closed_drawer))
   \<and> snd (handleQuickViewClick always_renders good_network click_without_id closed_drawer) = closed_drawer"
  by (simp add: handleQuickViewClick_def click_without_id_def falsy_entry_def)

text \<open>
  Claim C5, amended. Every click on a \<open>.product-card__quick-view-btn\<close> element has its default
  action prevented and its propagation stopped. If the dataset of the button carries a
  non-empty product id and a non-empty product handle, the handler then loads the product
  with \<open>#loadProductData\<close> (which fetches when the handle is not cached) and shows the dialog;
  if either is missing or empty, it returns without loading and without opening the dialog.
  A click elsewhere changes nothing.
\<close>

theorem handleQuickViewClick_amended:
  "(quickViewBtn event = None \<longrightarrow> handleQuickViewClick renders env event s = (event, s))
   \<and> (\<forall>btn. quickViewBtn event = Some btn \<longrightarrow>
        fst (handleQuickViewClick renders env event s)
          = event\<lparr>defaultPrevented := True, propagationStopped := True\<rparr>
        \<and> (falsy_entry (productId btn) \<or> falsy_entry (productHandle btn) \<longrightarrow>
             snd (handleQuickViewClick renders env event s) = s)
        \<and> (\<forall>pid h. productId btn = Some pid \<and> pid \<noteq> [] \<and> productHandle btn = Some h \<and> h \<noteq> [] \<longrightarrow>
             snd (handleQuickViewClick renders env event s)
               = showDialog (loadProductData renders env h s)
             \<and> dialogOpen (snd (handleQuickViewClick renders env event s))
             \<and> (cachedContent s h = None \<longrightarrow>
                  fetches (snd (handleQuickViewClick renders env event s))
                    = fetches s @ [product_url h])))"
  by (auto simp: handleQuickViewClick_def falsy_entry_def showDialog_def Let_def
        loadProductData_miss_fetches)

theorem handleQuickViewClick_amended_witness:
  "quickViewBtn click_on_mug = Some \<lparr>productId = Some ''7'', productHandle = Some ''mug''\<rparr>
   \<and> defaultPrevented (fst (handleQuickViewClick always_renders good_network click_on_mug closed_drawer))
   \<and> dialogOpen (snd (handleQuickViewClick always_renders good_network click_on_mug closed_drawer))
   \<and> fetches (snd (handleQuickViewClick always_renders good_network click_on_mug closed_drawer))
       = [''/products/mug?view=quick-view'']
   \<and> snd (handleQuickViewClick always_renders good_network click_without_id closed_drawer)
       = closed_drawer"
proof -
  have btn: "quickViewBtn click_on_mug = Some \<lparr>productId = Some ''7'', productHandle = Some ''mug''\<rparr>"
    by (simp add: click_on_mug_def)
  have btn': "quickViewBtn click_without_id = Some \<lparr>productId = None, productHandle = Some ''mug''\<rparr>"
    by (simp add: click_without_id_def)
  have miss: "cachedContent closed_drawer ''mug'' = None"
    by (simp add: closed_drawer_def)
  have url: "fetches closed_drawer @ [product_url ''mug''] = [''/products/mug?view=quick-view'']"
    by (simp add: closed_drawer_def product_url_def)
  have a: "fst (handleQuickViewClick always_renders good_network click_on_mug closed_drawer)
          = click_on_mug\<lparr>defaultPrevented := True, propagationStopped := True\<rparr>"
    and b: "dialogOpen (snd (handleQuickViewClick always_renders good_network click_on_mug closed_drawer))"
    and c: "fetches (snd (handleQuickViewClick always_renders good_network click_on_mug closed_drawer))
                    = fetches closed_drawer @ [product_url ''mug'']"
    using handleQuickViewClick_amended [of click_on_mug always_renders good_network closed_drawer]
      btn miss by auto
  have d: "snd (handleQuickViewClick always_renders good_network click_without_id closed_drawer)
       = closed_drawer"
    using handleQuickViewClick_amended [of click_without_id always_renders good_network closed_drawer]
      btn' by (auto simp: falsy_entry_def)
  from a b c d btn url show ?thesis
    by simp
qed


section \<open>Properties of the header menu\<close>

lemma findMenuItem_demo: "findMenuItem demo_dom (Some 1) = Some 2" "findMenuItem demo_dom (Some 4) = Some 5"
  by (simp_all add: findMenuItem.simps demo_dom_def querySelector_def)

lemma findSubmenu_demo: "findSubmenu demo_dom (Some 2) = Some 3" "findSubmenu demo_dom (Some 5) = Some 6"
  by (simp_all add: demo_dom_def querySelector_def findSubmenu_def parentElement_def)

lemma activateHandler_frame:
  "timerLog (activateHandler d event s) = timerLog s"
  "pendingActivate (activateHandler d event s) = pendingActivate s"
  "pendingDeactivate (activateHandler d event s) = None"
  "hidden (activateHandler d event s) = hidden s"
  "overflowHovered (activateHandler d event s) = overflowHovered s"
  by (simp_all add: activateHandler_def debounce_cancel_def Let_def split: option.splits)

lemma activateHandler_new_item:
  assumes "target event = Some t" and "findMenuItem d (Some t) = Some item"
    and "activeItem s \<noteq> Some item"
  shows "activeItem (activateHandler d event s) = Some item"
    and "ariaExpanded (activateHandler d event s) item = Some ''true''"
    and "activeItem s = Some p \<Longrightarrow> ariaExpanded (activateHandler d event s) p = Some ''false''"
    and "q \<noteq> item \<Longrightarrow> activeItem s \<noteq> Some q \<Longrightarrow>
         ariaExpanded (activateHandler d event s) q = ariaExpanded s q"
  using assms by (auto simp: activateHandler_def debounce_cancel_def Let_def split: option.splits)

lemma activateHandler_same_item:
  "target event = None \<or> findMenuItem d (target event) = None
     \<or> findMenuItem d (target event) = activeItem s \<Longrightarrow>
   activeItem (activateHandler d event s) = activeItem s
   \<and> ariaExpanded (activateHandler d event s) = ariaExpanded s"
  by (auto simp: activateHandler_def debounce_cancel_def Let_def split: option.splits)

lemma activateHandler_activeItem:
  "target event = Some t \<Longrightarrow> findMenuItem d (Some t) = Some item \<Longrightarrow>
   activeItem (activateHandler d event s) = Some item"
  by (auto simp: activateHandler_def debounce_cancel_def Let_def split: option.splits)

lemma deactivate_item_runs:
  "activeItem s = Some i \<Longrightarrow> \<not> overflowHovered s \<Longrightarrow>
   activeItem (deactivate_active d s) = None
   \<and> ariaExpanded (deactivate_active d s) = (ariaExpanded s)(i := Some ''false'')"
  by (simp add: deactivate_active_def deactivate_item_def)

lemma deactivate_item_guarded:
  "overflowHovered s \<or> activeItem s = None \<Longrightarrow> deactivate_active d s = s"
  by (auto simp: deactivate_active_def deactivate_item_def split: option.splits)

lemma activateHandler_invariant:
  "expanded_is_active d s \<Longrightarrow> expanded_is_active d (activateHandler d event s)"
  by (auto simp: expanded_is_active_def activateHandler_def debounce_cancel_def Let_def
           split: option.splits if_splits)

lemma deactivate_active_invariant:
  "expanded_is_active d s \<Longrightarrow> expanded_is_active d (deactivate_active d s)"
  by (auto simp: expanded_is_active_def deactivate_active_def deactivate_item_def
           split: option.splits if_splits)

lemma run_activate_timer_invariant:
  assumes "expanded_is_active d s"
  shows "expanded_is_active d (run_activate_timer d ms s)"
proof -
  have "expanded_is_active d (s\<lparr>pendingActivate := None, timerLog := timerLog s @ [FiredActivateHandler]\<rparr>)"
    using assms by (simp add: expanded_is_active_def)
  then have a: "expanded_is_active d (activateHandler d event
                           (s\<lparr>pendingActivate := None, timerLog := timerLog s @ [FiredActivateHandler]\<rparr>))"
    for event
    by (rule activateHandler_invariant)
  have b: "expanded_is_active d (s\<lparr>pendingActivate := x\<rparr>)" for x
    using assms by (simp add: expanded_is_active_def)
  show ?thesis
    unfolding run_activate_timer_def using assms a b by (auto split: option.splits)
qed

lemma run_deactivate_timer_invariant:
  assumes "expanded_is_active d s"
  shows "expanded_is_active d (run_deactivate_timer d ms s)"
proof -
  have "expanded_is_active d (s\<lparr>pendingDeactivate := None, timerLog := timerLog s @ [FiredDeactivate]\<rparr>)"
    using assms by (simp add: expanded_is_active_def)
  then have c: "expanded_is_active d (deactivate_active d
                    (s\<lparr>pendingDeactivate := None, timerLog := timerLog s @ [FiredDeactivate]\<rparr>))"
    by (rule deactivate_active_invariant)
  have e: "expanded_is_active d (s\<lparr>pendingDeactivate := x\<rparr>)" for x
    using assms by (simp add: expanded_is_active_def)
  show ?thesis
    unfolding run_deactivate_timer_def using assms c e by (auto split: option.splits)
qed

lemma elapse_invariant:
  "expanded_is_active d s \<Longrightarrow> expanded_is_active d (elapse d ms s)"
  by (simp add: elapse_def run_activate_timer_invariant run_deactivate_timer_invariant)

lemma menu_step_invariant:
  "expanded_is_active d s \<Longrightarrow> expanded_is_active d (menu_step d s e)"
proof (cases e)
  case (Elapse ms)
  assume "expanded_is_active d s"
  with Elapse show ?thesis
    by (simp add: elapse_invariant)
next
  case (Activate event)
  assume "expanded_is_active d s"
  with Activate show ?thesis
    by (simp add: expanded_is_active_def activate_def Let_def)
next
  case (Deactivate event)
  assume "expanded_is_active d s"
  with Deactivate show ?thesis
    by (simp add: expanded_is_active_def deactivate_def Let_def split: option.splits)
next
  case OverflowPointerLeave
  assume "expanded_is_active d s"
  with OverflowPointerLeave show ?thesis
    by (simp add: expanded_is_active_def overflow_pointerleave_def)
next
  case (PointerEnter tgt)
  assume "expanded_is_active d s"
  with PointerEnter show ?thesis
    by (simp add: expanded_is_active_def on_host_def host_pointerenter_def)
next
  case (PointerLeave tgt)
  assume "expanded_is_active d s"
  with PointerLeave show ?thesis
    by (simp add: expanded_is_active_def on_host_def host_pointerleave_def)
next
  case (OverflowHover h)
  assume "expanded_is_active d s"
  with OverflowHover show ?thesis
    by (simp add: expanded_is_active_def)
qed

lemma menu_run_invariant:
  "expanded_is_active d s \<Longrightarrow> expanded_is_active d (menu_run d events s)"
  unfolding menu_run_def
proof (induction events arbitrary: s)
  case Nil
  then show ?case by simp
next
  case (Cons e events)
  from Cons.prems have "expanded_is_active d (menu_step d s e)"
    by (rule menu_step_invariant)
  from Cons.IH [OF this] show ?case
    by simp
qed

lemma activate_eq:
  "activate event s = s\<lparr>pendingDeactivate := None, pendingActivate := Some (event, ACTIVATE_DELAY)\<rparr>"
  by (simp add: activate_def debounce_call_def debounce_cancel_def)

lemma run_deactivate_timer_idle:
  "pendingDeactivate s = None \<Longrightarrow> run_deactivate_timer d ms s = s"
  by (simp add: run_deactivate_timer_def)

lemma run_activate_timer_idle:
  "pendingActivate s = None \<Longrightarrow> run_activate_timer d ms s = s"
  by (simp add: run_activate_timer_def)

lemma elapse_idle:
  "pendingActivate s = None \<Longrightarrow> pendingDeactivate s = None \<Longrightarrow> elapse d ms s = s"
  by (simp add: elapse_def run_activate_timer_idle run_deactivate_timer_idle)

lemma elapse_after_activate:
  "elapse d ms (activate event s) =
     activateHandler d event
       (s\<lparr>pendingDeactivate := None, pendingActivate := None,
          timerLog := timerLog s @ [FiredActivateHandler]\<rparr>)"
proof -
  have "run_activate_timer d ms (activate event s) =
     activateHandler d event
       (s\<lparr>pendingDeactivate := None, pendingActivate := None,
          timerLog := timerLog s @ [FiredActivateHandler]\<rparr>)"
    by (simp add: run_activate_timer_def activate_eq ACTIVATE_DELAY_def)
  then show ?thesis
    by (simp add: elapse_def run_deactivate_timer_idle activateHandler_frame)
qed

lemma hovered_menu_eq:
  "hovered_menu =
     (activateHandler demo_dom enter_first
        (closed_menu\<lparr>pendingDeactivate := None, pendingActivate := None,
           timerLog := timerLog closed_menu @ [FiredActivateHandler]\<rparr>))
     \<lparr>overflowHovered := True\<rparr>"
  by (simp add: hovered_menu_def menu_run_def elapse_after_activate)

lemma hovered_menu_facts:
  "activeItem hovered_menu = Some 2"
  "overflowHovered hovered_menu"
  "ariaExpanded hovered_menu 2 = Some ''true''"
  "timerLog hovered_menu = [FiredActivateHandler]"
  "pendingActivate hovered_menu = None"
  "pendingDeactivate hovered_menu = None"
proof -
  let ?s = "closed_menu\<lparr>pendingDeactivate := None, pendingActivate := None,
           timerLog := timerLog closed_menu @ [FiredActivateHandler]\<rparr>"
  have t: "target enter_first = Some 1"
    by (simp add: enter_first_def)
  have n: "activeItem ?s \<noteq> Some 2"
    by (simp add: closed_menu_def)
  from activateHandler_new_item(1,2) [OF t findMenuItem_demo(1) n]
  show "activeItem hovered_menu = Some 2" "ariaExpanded hovered_menu 2 = Some ''true''"
    by (simp_all add: hovered_menu_eq)
  show "overflowHovered hovered_menu"
    by (simp add: hovered_menu_eq)
  show "timerLog hovered_menu = [FiredActivateHandler]"
    by (simp add: hovered_menu_eq activateHandler_frame closed_menu_def)
  show "pendingActivate hovered_menu = None" "pendingDeactivate hovered_menu = None"
    by (simp_all add: hovered_menu_eq activateHandler_frame)
qed

lemma overflow_leave_then_wait:
  assumes "pendingActivate s = None"
  shows "menu_run d [OverflowPointerLeave, Elapse 350] s =
     deactivate_active d (s\<lparr>pendingDeactivate := None, timerLog := timerLog s @ [FiredDeactivate]\<rparr>)"
  using assms
  by (simp add: menu_run_def overflow_pointerleave_def elapse_def run_activate_timer_idle
        run_deactivate_timer_def debounce_call_def DEACTIVATE_DELAY_def)

lemma first_active_menu_eq:
  "first_active_menu =
     activateHandler demo_dom enter_first
        (closed_menu\<lparr>pendingDeactivate := None, pendingActivate := None,
           timerLog := timerLog closed_menu @ [FiredActivateHandler]\<rparr>)"
  by (simp add: first_active_menu_def menu_run_def elapse_after_activate)

lemma first_active_menu_facts:
  "activeItem first_active_menu = Some 2"
  "\<not> overflowHovered first_active_menu"
  "ariaExpanded first_active_menu 2 = Some ''true''"
  "timerLog first_active_menu = [FiredActivateHandler]"
  "pendingActivate first_active_menu = None"
  "pendingDeactivate first_active_menu = None"
proof -
  let ?s = "closed_menu\<lparr>pendingDeactivate := None, pendingActivate := None,
           timerLog := timerLog closed_menu @ [FiredActivateHandler]\<rparr>"
  have t: "target enter_first = Some 1"
    by (simp add: enter_first_def)
  have n: "activeItem ?s \<noteq> Some 2"
    by (simp add: closed_menu_def)
  from activateHandler_new_item(1,2) [OF t findMenuItem_demo(1) n]
  show "activeItem first_active_menu = Some 2" "ariaExpanded first_active_menu 2 = Some ''true''"
    by (simp_all add: first_active_menu_eq)
  show "\<not> overflowHovered first_active_menu"
    by (simp add: first_active_menu_eq activateHandler_frame closed_menu_def)
  show "timerLog first_active_menu = [FiredActivateHandler]"
    by (simp add: first_active_menu_eq activateHandler_frame closed_menu_def)
  show "pendingActivate first_active_menu = None" "pendingDeactivate first_active_menu = None"
    by (simp_all add: first_active_menu_eq activateHandler_frame)
qed

lemma two_toggle_clicks:
  "ariaExpanded (submenu_toggle_click demo_dom 5 (submenu_toggle_click demo_dom 2 closed_menu)) 2 = Some ''true''
   \<and> ariaExpanded (submenu_toggle_click demo_dom 5 (submenu_toggle_click demo_dom 2 closed_menu)) 5 = Some ''true''
   \<and> activeItem (submenu_toggle_click demo_dom 5 (submenu_toggle_click demo_dom 2 closed_menu)) = None"
  by code_simp

lemma preexpanded_then_hover:
  "ariaExpanded (menu_run demo_dom [Activate enter_first, Elapse 0] preexpanded_menu) 2 = Some ''true''"
  "ariaExpanded (menu_run demo_dom [Activate enter_first, Elapse 0] preexpanded_menu) 5 = Some ''true''"
  "activeItem (menu_run demo_dom [Activate enter_first, Elapse 0] preexpanded_menu) = Some 2"
proof -
  let ?s = "preexpanded_menu\<lparr>pendingDeactivate := None, pendingActivate := None,
           timerLog := timerLog preexpanded_menu @ [FiredActivateHandler]\<rparr>"
  have run: "menu_run demo_dom [Activate enter_first, Elapse 0] preexpanded_menu
      = activateHandler demo_dom enter_first ?s"
    by (simp add: menu_run_def elapse_after_activate)
  have t: "target enter_first = Some 1"
    by (simp add: enter_first_def)
  have n: "activeItem ?s \<noteq> Some 2" "activeItem ?s \<noteq> Some 5" "ariaExpanded ?s 5 = Some ''true''"
    by (simp_all add: preexpanded_menu_def closed_menu_def)
  from activateHandler_new_item(1,2) [OF t findMenuItem_demo(1) n(1)]
  show "ariaExpanded (menu_run demo_dom [Activate enter_first, Elapse 0] preexpanded_menu) 2 = Some ''true''"
    and "activeItem (menu_run demo_dom [Activate enter_first, Elapse 0] preexpanded_menu) = Some 2"
    by (simp_all add: run)
  from activateHandler_new_item(4) [OF t findMenuItem_demo(1) n(1), of 5] n(2,3)
  show "ariaExpanded (menu_run demo_dom [Activate enter_first, Elapse 0] preexpanded_menu) 5 = Some ''true''"
    by (simp add: run)
qed

text \<open>
  Claim C3 as stated fails, in three ways; elements 2 and 5 are the two menu items of the
  menu below.

  \<^item> \<open>#deactivate\<close> returns at once while the overflow menu is hovered: with the first item
    active and the pointer on the overflow menu, the deactivation runs and the item stays
    active and expanded.
  \<^item> The click listener for submenu toggles writes \<open>aria-expanded\<close> of the link it is given
    and of no other: after a click on the first link and a click on the second, both menu
    items have \<open>aria-expanded\<close> \<open>true\<close>, and no item is active.
  \<^item> \<open>#activateHandler\<close> collapses the previously active item and no other: when the second
    item is expanded from the start without being the active one, hovering the first item
    leaves both expanded.
\<close>

theorem single_expanded_item_fails:
  "activeItem hovered_menu = Some 2
   \<and> overflowHovered hovered_menu
   \<and> activeItem (deactivate_active demo_dom hovered_menu) = Some 2
   \<and> ariaExpanded (deactivate_active demo_dom hovered_menu) 2 = Some ''true''
   \<and> timerLog (menu_run demo_dom [OverflowPointerLeave, Elapse 350] hovered_menu)
       = [FiredActivateHandler, FiredDeactivate]
   \<and> activeItem (menu_run demo_dom [OverflowPointerLeave, Elapse 350] hovered_menu) = Some 2
   \<and> ref demo_dom 2 = ''menuitem''
   \<and> ref demo_dom 5 = ''menuitem''
   \<and> ariaExpanded closed_menu 2 = Some ''false''
   \<and> ariaExpanded closed_menu 5 = Some ''false''
   \<and> ariaExpanded (submenu_toggle_click demo_dom 5 (submenu_toggle_click demo_dom 2 closed_menu)) 2
       = Some ''true''
   \<and> ariaExpanded (submenu_toggle_click demo_dom 5 (submenu_toggle_click demo_dom 2 closed_menu)) 5
       = Some ''true''
   \<and> activeItem (submenu_toggle_click demo_dom 5 (submenu_toggle_click demo_dom 2 closed_menu)) = None
   \<and> activeItem preexpanded_menu = None
   \<and> ariaExpanded preexpanded_menu 2 = Some ''false''
   \<and> ariaExpanded preexpanded_menu 5 = Some ''true''
   \<and> ariaExpanded (menu_run demo_dom [Activate enter_first, Elapse 0] preexpanded_menu) 2 = Some ''true''
   \<and> ariaExpanded (menu_run demo_dom [Activate enter_first, Elapse 0] preexpanded_menu) 5 = Some ''true''"
proof -
  have g: "deactivate_active demo_dom hovered_menu = hovered_menu"
    by (simp add: deactivate_item_guarded hovered_menu_facts)
  have "overflowHovered (hovered_menu\<lparr>pendingDeactivate := None,
            timerLog := timerLog hovered_menu @ [FiredDeactivate]\<rparr>)"
    by (simp add: hovered_menu_facts)
  then have "menu_run demo_dom [OverflowPointerLeave, Elapse 350] hovered_menu =
      hovered_menu\<lparr>pendingDeactivate := None, timerLog := timerLog hovered_menu @ [FiredDeactivate]\<rparr>"
    by (simp add: overflow_leave_then_wait hovered_menu_facts deactivate_item_guarded)
  with g have guard: "activeItem hovered_menu = Some 2
   \<and> overflowHovered hovered_menu
   \<and> activeItem (deactivate_active demo_dom hovered_menu) = Some 2
   \<and> ariaExpanded (deactivate_active demo_dom hovered_menu) 2 = Some ''true''
   \<and> timerLog (menu_run demo_dom [OverflowPointerLeave, Elapse 350] hovered_menu)
       = [FiredActivateHandler, FiredDeactivate]
   \<and> activeItem (menu_run demo_dom [OverflowPointerLeave, Elapse 350] hovered_menu) = Some 2"
    by (simp add: hovered_menu_facts)
  have items: "ref demo_dom 2 = ''menuitem''" "ref demo_dom 5 = ''menuitem''"
    by (simp_all add: demo_dom_def)
  have start: "ariaExpanded closed_menu 2 = Some ''false''" "ariaExpanded closed_menu 5 = Some ''false''"
    "activeItem preexpanded_menu = None" "ariaExpanded preexpanded_menu 2 = Some ''false''"
    "ariaExpanded preexpanded_menu 5 = Some ''true''"
    by (simp_all add: preexpanded_menu_def closed_menu_def)
  from guard items start two_toggle_clicks preexpanded_then_hover(1,2) show ?thesis
    by blast
qed

text \<open>
  Claim C3, amended. Whenever \<open>#activateHandler\<close> activates a menu item distinct from the
  active one, it sets the \<open>ariaExpanded\<close> of the previously active item to \<open>false\<close> and makes
  the new item the active item with \<open>ariaExpanded\<close> \<open>true\<close>. Whenever \<open>#deactivate\<close> runs
  while the overflow menu is not hovered, it resets the active item to null and the
  \<open>ariaExpanded\<close> of the deactivated item to \<open>false\<close>; while the overflow menu is hovered it
  changes nothing. From a state in which every expanded menu item is the active item (such
  as a menu whose markup has no expanded menu item), every run of activations,
  deactivations, pointer events and timers, without clicks on submenu toggles, leads to a
  state in which at most one menu item has \<open>ariaExpanded\<close> \<open>true\<close>, and that item is the
  active one.
\<close>

theorem header_menu_single_expanded_item:
  "(\<forall>t item. target event = Some t \<and> findMenuItem d (Some t) = Some item
        \<and> activeItem s \<noteq> Some item \<longrightarrow>
      activeItem (activateHandler d event s) = Some item
      \<and> ariaExpanded (activateHandler d event s) item = Some ''true''
      \<and> (\<forall>p. activeItem s = Some p \<longrightarrow> ariaExpanded (activateHandler d event s) p = Some ''false''))
   \<and> (\<forall>i. activeItem s = Some i \<and> \<not> overflowHovered s \<longrightarrow>
        activeItem (deactivate_active d s) = None
        \<and> ariaExpanded (deactivate_active d s) i = Some ''false'')
   \<and> (overflowHovered s \<longrightarrow> deactivate_active d s = s)
   \<and> ((\<forall>i. ref d i = ''menuitem'' \<and> ariaExpanded s i = Some ''true'' \<longrightarrow> activeItem s = Some i) \<longrightarrow>
        (\<forall>i j. ref d i = ''menuitem'' \<and> ariaExpanded (menu_run d events s) i = Some ''true''
              \<and> ref d j = ''menuitem'' \<and> ariaExpanded (menu_run d events s) j = Some ''true'' \<longrightarrow>
            i = j \<and> activeItem (menu_run d events s) = Some i))"
proof (intro conjI allI impI)
  fix t item
  assume a: "target event = Some t \<and> findMenuItem d (Some t) = Some item \<and> activeItem s \<noteq> Some item"
  then show "activeItem (activateHandler d event s) = Some item"
    by (simp add: activateHandler_new_item)
  from a show "ariaExpanded (activateHandler d event s) item = Some ''true''"
    by (simp add: activateHandler_new_item)
  fix p
  assume "activeItem s = Some p"
  with a show "ariaExpanded (activateHandler d event s) p = Some ''false''"
    using activateHandler_new_item(3) [of event t d item s p] by simp
next
  fix i
  assume "activeItem s = Some i \<and> \<not> overflowHovered s"
  then show "activeItem (deactivate_active d s) = None"
    and "ariaExpanded (deactivate_active d s) i = Some ''false''"
    by (simp_all add: deactivate_item_runs)
next
  assume "overflowHovered s"
  then show "deactivate_active d s = s"
    by (simp add: deactivate_item_guarded)
next
  fix i j
  assume "\<forall>i. ref d i = ''menuitem'' \<and> ariaExpanded s i = Some ''true'' \<longrightarrow> activeItem s = Some i"
  then have "expanded_is_active d s"
    by (simp add: expanded_is_active_def)
  then have inv: "expanded_is_active d (menu_run d events s)"
    by (rule menu_run_invariant)
  assume "ref d i = ''menuitem'' \<and> ariaExpanded (menu_run d events s) i = Some ''true''
              \<and> ref d j = ''menuitem'' \<and> ariaExpanded (menu_run d events s) j = Some ''true''"
  with inv have ij: "activeItem (menu_run d events s) = Some i" "activeItem (menu_run d events s) = Some j"
    by (simp_all add: expanded_is_active_def)
  then show "i = j"
    by simp
  from ij show "activeItem (menu_run d events s) = Some i"
    by simp
qed

theorem header_menu_single_expanded_item_witness:
  "activeItem (activateHandler demo_dom enter_second hovered_menu) = Some 5
   \<and> ariaExpanded (activateHandler demo_dom enter_second hovered_menu) 5 = Some ''true''
   \<and> ariaExpanded (activateHandler demo_dom enter_second hovered_menu) 2 = Some ''false''
   \<and> deactivate_active demo_dom hovered_menu = hovered_menu
   \<and> activeItem (deactivate_active demo_dom (hovered_menu\<lparr>overflowHovered := False\<rparr>)) = None
   \<and> ref demo_dom 2 = ''menuitem''
   \<and> ref demo_dom 5 = ''menuitem''
   \<and> ariaExpanded (menu_run demo_dom [Activate enter_first, Elapse 0, Activate enter_second, Elapse 5] closed_menu) 5
       = Some ''true''
   \<and> ariaExpanded (menu_run demo_dom [Activate enter_first, Elapse 0, Activate enter_second, Elapse 5] closed_menu) 2
       \<noteq> Some ''true''
   \<and> activeItem (menu_run demo_dom [Activate enter_first, Elapse 0, Activate enter_second, Elapse 5] closed_menu)
       = Some 5"
proof -
  let ?run = "menu_run demo_dom [Activate enter_first, Elapse 0, Activate enter_second, Elapse 5] closed_menu"
  have tgt: "target enter_second = Some 4"
    by (simp add: enter_second_def)
  have act: "activeItem hovered_menu \<noteq> Some 5" "activeItem hovered_menu = Some 2"
    by (simp_all add: hovered_menu_facts)
  have init: "\<forall>i. ref demo_dom i = ''menuitem'' \<and> ariaExpanded closed_menu i = Some ''true'' \<longrightarrow>
      activeItem closed_menu = Some i"
    by (simp add: closed_menu_def)
  have items: "ref demo_dom 2 = ''menuitem''" "ref demo_dom 5 = ''menuitem''"
    by (simp_all add: demo_dom_def)
  have act': "activeItem (hovered_menu\<lparr>overflowHovered := False\<rparr>) = Some 2
      \<and> \<not> overflowHovered (hovered_menu\<lparr>overflowHovered := False\<rparr>)"
    by (simp add: hovered_menu_facts)
  from header_menu_single_expanded_item [of enter_second demo_dom hovered_menu "[]"]
    tgt findMenuItem_demo(2) act hovered_menu_facts(2)
  have a: "activeItem (activateHandler demo_dom enter_second hovered_menu) = Some 5
   \<and> ariaExpanded (activateHandler demo_dom enter_second hovered_menu) 5 = Some ''true''
   \<and> ariaExpanded (activateHandler demo_dom enter_second hovered_menu) 2 = Some ''false''
   \<and> deactivate_active demo_dom hovered_menu = hovered_menu"
    by blast
  from header_menu_single_expanded_item [of enter_second demo_dom "hovered_menu\<lparr>overflowHovered := False\<rparr>" "[]"]
    act'
  have b: "activeItem (deactivate_active demo_dom (hovered_menu\<lparr>overflowHovered := False\<rparr>)) = None"
    by blast
  from header_menu_single_expanded_item [of enter_second demo_dom closed_menu
      "[Activate enter_first, Elapse 0, Activate enter_second, Elapse 5]"] init
  have c: "\<forall>i j. ref demo_dom i = ''menuitem'' \<and> ariaExpanded ?run i = Some ''true''
              \<and> ref demo_dom j = ''menuitem'' \<and> ariaExpanded ?run j = Some ''true'' \<longrightarrow>
            i = j \<and> activeItem ?run = Some i"
    by blast
  have five: "ariaExpanded ?run 5 = Some ''true''"
    by code_simp
  from c items five have two: "ariaExpanded ?run 2 = Some ''true'' \<longrightarrow> (2::nat) = 5"
    by blast
  from c items five have active: "activeItem ?run = Some 5"
    by blast
  from two have "ariaExpanded ?run 2 \<noteq> Some ''true''"
    by simp
  with a b items five active show ?thesis
    by blast
qed

lemma deactivate_cancels_activation:
  "pendingActivate (deactivate d event s) = None"
  by (simp add: deactivate_def debounce_cancel_def Let_def split: option.splits)

lemma deactivate_frame:
  "activeItem (deactivate d event s) = activeItem s"
  "ariaExpanded (deactivate d event s) = ariaExpanded s"
  "timerLog (deactivate d event s) = timerLog s"
  by (simp_all add: deactivate_def Let_def split: option.splits)

lemma deactivate_cases:
  "deactivate d event s =
     (if target event \<noteq> None
         \<and> \<not> (\<exists>r. relatedTarget event = Some r
                 \<and> ((\<exists>sm. findSubmenu d (findMenuItem d (target event)) = Some sm
                            \<and> element_contains d sm r)
                      \<or> closest_class d ''mega-menu__nested'' r \<noteq> None))
         \<and> findMenuItem d (target event) = activeItem s
      then s\<lparr>pendingActivate := None, pendingDeactivate := Some ((), DEACTIVATE_DELAY)\<rparr>
      else s\<lparr>pendingActivate := None\<rparr>)"
  by (auto simp: deactivate_def debounce_call_def debounce_cancel_def Let_def split: option.splits)

lemma elapse_before_deadline:
  "pendingActivate s = None \<Longrightarrow> ms < left \<Longrightarrow>
   elapse d ms (s\<lparr>pendingDeactivate := Some ((), left)\<rparr>) = s\<lparr>pendingDeactivate := Some ((), left - ms)\<rparr>"
  by (simp add: elapse_def run_activate_timer_idle run_deactivate_timer_def)

lemma elapse_at_deadline:
  "pendingActivate s = None \<Longrightarrow> left \<le> ms \<Longrightarrow>
   elapse d ms (s\<lparr>pendingDeactivate := Some ((), left)\<rparr>) =
     deactivate_active d (s\<lparr>pendingDeactivate := None, timerLog := timerLog s @ [FiredDeactivate]\<rparr>)"
  by (simp add: elapse_def run_activate_timer_idle run_deactivate_timer_def)

text \<open>
  Claim C4 as stated fails: the state does not always reflect the last event. \<open>deactivate\<close>
  cancels the pending activation whatever its event, and schedules a deactivation only when
  the item of its event is the active one. In the run below the pointer enters the first
  item, which becomes active, leaves it, enters the second item and leaves it before the
  timer of that activation has run. The call for the first item's \<open>pointerleave\<close> schedules a
  deactivation, which the next \<open>activate\<close> cancels; the call for the second item's
  \<open>pointerleave\<close> cancels the activation of the second item and schedules nothing, as that
  item is not the active one. The first item stays active and expanded, with nothing
  pending, however much time passes.
\<close>

theorem deactivate_cancels_and_schedules_nothing:
  "findMenuItem demo_dom (target leave_second) = Some 5
   \<and> activeItem (menu_run demo_dom
         [Activate enter_first, Elapse 0, Deactivate leave_first, Activate enter_second,
          Deactivate leave_second] closed_menu) = Some 2
   \<and> pendingActivate (menu_run demo_dom
         [Activate enter_first, Elapse 0, Deactivate leave_first, Activate enter_second,
          Deactivate leave_second] closed_menu) = None
   \<and> pendingDeactivate (menu_run demo_dom
         [Activate enter_first, Elapse 0, Deactivate leave_first, Activate enter_second,
          Deactivate leave_second] closed_menu) = None
   \<and> activeItem (menu_run demo_dom
         [Activate enter_first, Elapse 0, Deactivate leave_first, Activate enter_second,
          Deactivate leave_second, Elapse 1000] closed_menu) = Some 2
   \<and> ariaExpanded (menu_run demo_dom
         [Activate enter_first, Elapse 0, Deactivate leave_first, Activate enter_second,
          Deactivate leave_second, Elapse 1000] closed_menu) 2 = Some ''true''
   \<and> ariaExpanded (menu_run demo_dom
         [Activate enter_first, Elapse 0, Deactivate leave_first, Activate enter_second,
          Deactivate leave_second, Elapse 1000] closed_menu) 5 = Some ''false''
   \<and> timerLog (menu_run demo_dom
         [Activate enter_first, Elapse 0, Deactivate leave_first, Activate enter_second,
          Deactivate leave_second, Elapse 1000] closed_menu) = [FiredActivateHandler]"
  by code_simp

text \<open>
  Claim C4, amended. After any run of events, a call to \<open>activate\<close> leaves no deactivation
  pending and exactly its own activation pending, whatever was pending before. When time
  passes after the call, the only timer that runs is that of the activation:
  \<open>#activateHandler\<close> runs on the event of the call, no \<open>#deactivate\<close> runs, and then nothing is
  pending any more; the item the event points to is the active item (when the event points
  to none, the active item is as before the call).

  After any run of events, a call to \<open>deactivate\<close> leaves no activation pending and changes
  neither the active item nor any \<open>aria-expanded\<close>, and no timer has run. It schedules the
  deactivation, for \<open>DEACTIVATE_DELAY\<close> from the call, exactly when its event has an element
  as target, the pointer has not moved into the item's submenu or into a
  \<open>.mega-menu__nested\<close> element, and the item of the event is the active item; then nothing
  changes before the delay has passed, and \<open>#deactivate\<close> runs once it has. Otherwise the
  call does nothing but cancel the activation: a deactivation pending before stays as it
  was, and with none pending the state stays as it is, with the active item of before,
  however much time passes.
\<close>

theorem activate_deactivate_ordering:
  "let s = menu_run d events s0;
       s1 = activate event s;
       s2 = elapse d ms s1;
       s3 = deactivate d event s;
       stays = (\<exists>r. relatedTarget event = Some r
                  \<and> ((\<exists>sm. findSubmenu d (findMenuItem d (target event)) = Some sm
                             \<and> element_contains d sm r)
                       \<or> closest_class d ''mega-menu__nested'' r \<noteq> None));
       schedules = (target event \<noteq> None \<and> \<not> stays \<and> findMenuItem d (target event) = activeItem s)
   in pendingDeactivate s1 = None
    \<and> pendingActivate s1 = Some (event, ACTIVATE_DELAY)
    \<and> ACTIVATE_DELAY = 0
    \<and> s2 = activateHandler d event
              (s1\<lparr>pendingActivate := None, timerLog := timerLog s @ [FiredActivateHandler]\<rparr>)
    \<and> timerLog s2 = timerLog s @ [FiredActivateHandler]
    \<and> pendingActivate s2 = None
    \<and> pendingDeactivate s2 = None
    \<and> (\<forall>ms'. elapse d ms' s2 = s2)
    \<and> (\<forall>t item. target event = Some t \<and> findMenuItem d (Some t) = Some item \<longrightarrow>
          activeItem s2 = Some item)
    \<and> (target event = None \<or> findMenuItem d (target event) = None \<longrightarrow>
          activeItem s2 = activeItem s)
    \<and> pendingActivate s3 = None
    \<and> activeItem s3 = activeItem s
    \<and> ariaExpanded s3 = ariaExpanded s
    \<and> timerLog s3 = timerLog s
    \<and> (schedules \<longrightarrow>
          s3 = s\<lparr>pendingActivate := None, pendingDeactivate := Some ((), DEACTIVATE_DELAY)\<rparr>
          \<and> (\<forall>ms'<DEACTIVATE_DELAY.
                elapse d ms' s3 =
                  s\<lparr>pendingActivate := None, pendingDeactivate := Some ((), DEACTIVATE_DELAY - ms')\<rparr>)
          \<and> (\<forall>ms'\<ge>DEACTIVATE_DELAY.
                elapse d ms' s3 =
                  deactivate_active d
                    (s\<lparr>pendingActivate := None, pendingDeactivate := None,
                       timerLog := timerLog s @ [FiredDeactivate]\<rparr>)))
    \<and> (\<not> schedules \<longrightarrow>
          s3 = s\<lparr>pendingActivate := None\<rparr>
          \<and> (pendingDeactivate s = None \<longrightarrow> (\<forall>ms'. elapse d ms' s3 = s3)))"
proof -
  define s where "s = menu_run d events s0"
  define s1 where "s1 = activate event s"
  define s2 where "s2 = elapse d ms s1"
  define s3 where "s3 = deactivate d event s"
  define stays where "stays \<longleftrightarrow> (\<exists>r. relatedTarget event = Some r
                  \<and> ((\<exists>sm. findSubmenu d (findMenuItem d (target event)) = Some sm
                             \<and> element_contains d sm r)
                       \<or> closest_class d ''mega-menu__nested'' r \<noteq> None))"
  define schedules where
    "schedules \<longleftrightarrow> target event \<noteq> None \<and> \<not> stays \<and> findMenuItem d (target event) = activeItem s"
  have s1: "s1 = s\<lparr>pendingDeactivate := None, pendingActivate := Some (event, ACTIVATE_DELAY)\<rparr>"
    by (simp add: s1_def activate_eq)
  have s2: "s2 = activateHandler d event
       (s\<lparr>pendingDeactivate := None, pendingActivate := None,
          timerLog := timerLog s @ [FiredActivateHandler]\<rparr>)"
    by (simp add: s2_def s1_def elapse_after_activate)
  have p1: "pendingDeactivate s1 = None" "pendingActivate s1 = Some (event, ACTIVATE_DELAY)"
    by (simp_all add: s1)
  have e2: "s2 = activateHandler d event
              (s1\<lparr>pendingActivate := None, timerLog := timerLog s @ [FiredActivateHandler]\<rparr>)"
    by (simp add: s2 s1)
  have log: "timerLog s2 = timerLog s @ [FiredActivateHandler]"
    by (simp add: s2 activateHandler_frame)
  have p2: "pendingActivate s2 = None" "pendingDeactivate s2 = None"
    by (simp_all add: s2 activateHandler_frame)
  then have idle: "\<forall>ms'. elapse d ms' s2 = s2"
    by (simp add: elapse_idle)
  have item: "\<forall>t item. target event = Some t \<and> findMenuItem d (Some t) = Some item \<longrightarrow>
          activeItem s2 = Some item"
    by (simp add: s2 activateHandler_activeItem)
  have none: "target event = None \<or> findMenuItem d (target event) = None \<longrightarrow>
          activeItem s2 = activeItem s"
    using activateHandler_same_item [of event d "s\<lparr>pendingDeactivate := None, pendingActivate := None,
          timerLog := timerLog s @ [FiredActivateHandler]\<rparr>"]
    by (auto simp: s2)
  have d1: "pendingActivate s3 = None"
    unfolding s3_def by (rule deactivate_cancels_activation)
  have d2: "activeItem s3 = activeItem s" "ariaExpanded s3 = ariaExpanded s" "timerLog s3 = timerLog s"
    by (simp_all add: s3_def deactivate_frame)
  have cases: "s3 = (if schedules
      then s\<lparr>pendingActivate := None, pendingDeactivate := Some ((), DEACTIVATE_DELAY)\<rparr>
      else s\<lparr>pendingActivate := None\<rparr>)"
    unfolding s3_def schedules_def stays_def by (rule deactivate_cases)
  have idle0: "pendingActivate (s\<lparr>pendingActivate := None\<rparr>) = None"
    by simp
  have yes: "schedules \<longrightarrow>
          s3 = s\<lparr>pendingActivate := None, pendingDeactivate := Some ((), DEACTIVATE_DELAY)\<rparr>
          \<and> (\<forall>ms'<DEACTIVATE_DELAY.
                elapse d ms' s3 =
                  s\<lparr>pendingActivate := None, pendingDeactivate := Some ((), DEACTIVATE_DELAY - ms')\<rparr>)
          \<and> (\<forall>ms'\<ge>DEACTIVATE_DELAY.
                elapse d ms' s3 =
                  deactivate_active d
                    (s\<lparr>pendingActivate := None, pendingDeactivate := None,
                       timerLog := timerLog s @ [FiredDeactivate]\<rparr>))"
  proof
    assume schedules
    with cases have eq: "s3 = (s\<lparr>pendingActivate := None\<rparr>)\<lparr>pendingDeactivate := Some ((), DEACTIVATE_DELAY)\<rparr>"
      by simp
    have before: "elapse d ms' s3 =
        s\<lparr>pendingActivate := None, pendingDeactivate := Some ((), DEACTIVATE_DELAY - ms')\<rparr>"
      if "ms' < DEACTIVATE_DELAY" for ms'
      using elapse_before_deadline [OF idle0 that, of d] by (simp add: eq)
    have after: "elapse d ms' s3 =
        deactivate_active d
          (s\<lparr>pendingActivate := None, pendingDeactivate := None,
             timerLog := timerLog s @ [FiredDeactivate]\<rparr>)"
      if "DEACTIVATE_DELAY \<le> ms'" for ms'
      using elapse_at_deadline [OF idle0 that, of d] by (simp add: eq)
    from eq before after
    show "s3 = s\<lparr>pendingActivate := None, pendingDeactivate := Some ((), DEACTIVATE_DELAY)\<rparr>
          \<and> (\<forall>ms'<DEACTIVATE_DELAY.
                elapse d ms' s3 =
                  s\<lparr>pendingActivate := None, pendingDeactivate := Some ((), DEACTIVATE_DELAY - ms')\<rparr>)
          \<and> (\<forall>ms'\<ge>DEACTIVATE_DELAY.
                elapse d ms' s3 =
                  deactivate_active d
                    (s\<lparr>pendingActivate := None, pendingDeactivate := None,
                       timerLog := timerLog s @ [FiredDeactivate]\<rparr>))"
      by simp
  qed
  have no: "\<not> schedules \<longrightarrow>
          s3 = s\<lparr>pendingActivate := None\<rparr>
          \<and> (pendingDeactivate s = None \<longrightarrow> (\<forall>ms'. elapse d ms' s3 = s3))"
  proof
    assume "\<not> schedules"
    with cases have eq: "s3 = s\<lparr>pendingActivate := None\<rparr>"
      by simp
    then have "pendingDeactivate s = None \<longrightarrow> (\<forall>ms'. elapse d ms' s3 = s3)"
      by (simp add: elapse_idle)
    with eq show "s3 = s\<lparr>pendingActivate := None\<rparr>
          \<and> (pendingDeactivate s = None \<longrightarrow> (\<forall>ms'. elapse d ms' s3 = s3))"
      by simp
  qed
  have zero: "ACTIVATE_DELAY = 0"
    by (simp add: ACTIVATE_DELAY_def)
  from p1 zero e2 log p2 idle item none d1 d2 yes no show ?thesis
    unfolding Let_def s_def [symmetric] s1_def [symmetric] s2_def [symmetric] s3_def [symmetric]
      stays_def [symmetric] schedules_def [symmetric]
    by blast
qed

theorem activate_deactivate_ordering_witness:
  "pendingDeactivate (menu_run demo_dom [Activate enter_first, Elapse 0, Deactivate leave_first, Elapse 100] closed_menu)
     = Some ((), 250)
   \<and> timerLog (menu_run demo_dom
       [Activate enter_first, Elapse 0, Deactivate leave_first, Elapse 100, Activate enter_second, Elapse 400]
       closed_menu)
     = timerLog (menu_run demo_dom [Activate enter_first, Elapse 0, Deactivate leave_first, Elapse 100] closed_menu)
         @ [FiredActivateHandler]
   \<and> activeItem (menu_run demo_dom
       [Activate enter_first, Elapse 0, Deactivate leave_first, Elapse 100, Activate enter_second, Elapse 400]
       closed_menu) = Some 5
   \<and> pendingDeactivate (menu_run demo_dom
       [Activate enter_first, Elapse 0, Deactivate leave_first, Elapse 100, Activate enter_second, Elapse 400]
       closed_menu) = None
   \<and> menu_run demo_dom [Activate enter_first, Elapse 0, Deactivate leave_second] closed_menu
       = first_active_menu
   \<and> menu_run demo_dom [Activate enter_first, Elapse 0, Deactivate leave_second, Elapse 1000] closed_menu
       = first_active_menu
   \<and> pendingDeactivate (menu_run demo_dom [Activate enter_first, Elapse 0, Deactivate leave_first] closed_menu)
       = Some ((), 350)
   \<and> activeItem (menu_run demo_dom [Activate enter_first, Elapse 0, Deactivate leave_first, Elapse 349] closed_menu)
       = Some 2
   \<and> activeItem (menu_run demo_dom [Activate enter_first, Elapse 0, Deactivate leave_first, Elapse 350] closed_menu)
       = None"
proof -
  let ?before = "[Activate enter_first, Elapse 0, Deactivate leave_first, Elapse 100]"
  let ?first = "[Activate enter_first, Elapse 0]"
  have split: "menu_run demo_dom (?before @ [Activate enter_second, Elapse 400]) closed_menu
      = elapse demo_dom 400 (activate enter_second (menu_run demo_dom ?before closed_menu))"
    by (simp add: menu_run_def)
  have tgt: "target enter_second = Some 4"
    by (simp add: enter_second_def)
  from activate_deactivate_ordering [of demo_dom ?before closed_menu enter_second 400]
    tgt findMenuItem_demo(2)
  have "timerLog (elapse demo_dom 400 (activate enter_second (menu_run demo_dom ?before closed_menu)))
          = timerLog (menu_run demo_dom ?before closed_menu) @ [FiredActivateHandler]
      \<and> activeItem (elapse demo_dom 400 (activate enter_second (menu_run demo_dom ?before closed_menu)))
          = Some 5
      \<and> pendingDeactivate (elapse demo_dom 400 (activate enter_second (menu_run demo_dom ?before closed_menu)))
          = None"
    unfolding Let_def by blast
  moreover have "pendingDeactivate (menu_run demo_dom ?before closed_menu) = Some ((), 250)"
    by code_simp
  ultimately have a: "pendingDeactivate (menu_run demo_dom [Activate enter_first, Elapse 0, Deactivate leave_first, Elapse 100] closed_menu)
     = Some ((), 250)
   \<and> timerLog (menu_run demo_dom
       [Activate enter_first, Elapse 0, Deactivate leave_first, Elapse 100, Activate enter_second, Elapse 400]
       closed_menu)
     = timerLog (menu_run demo_dom [Activate enter_first, Elapse 0, Deactivate leave_first, Elapse 100] closed_menu)
         @ [FiredActivateHandler]
   \<and> activeItem (menu_run demo_dom
       [Activate enter_first, Elapse 0, Deactivate leave_first, Elapse 100, Activate enter_second, Elapse 400]
       closed_menu) = Some 5
   \<and> pendingDeactivate (menu_run demo_dom
       [Activate enter_first, Elapse 0, Deactivate leave_first, Elapse 100, Activate enter_second, Elapse 400]
       closed_menu) = None"
    using split by simp
  have first: "menu_run demo_dom ?first closed_menu = first_active_menu"
    by (simp add: first_active_menu_def)
  have same: "first_active_menu\<lparr>pendingActivate := None\<rparr> = first_active_menu"
    using first_active_menu_facts(5) by simp
  have other: "target leave_second \<noteq> None" "relatedTarget leave_second = None"
    "findMenuItem demo_dom (target leave_second) \<noteq> activeItem first_active_menu"
    by (simp_all add: leave_second_def findMenuItem_demo first_active_menu_facts)
  from activate_deactivate_ordering [of demo_dom ?first closed_menu leave_second 0,
        unfolded Let_def first]
    other(3) first_active_menu_facts(6)
  have b: "deactivate demo_dom leave_second first_active_menu = first_active_menu\<lparr>pendingActivate := None\<rparr>
      \<and> elapse demo_dom 1000 (deactivate demo_dom leave_second first_active_menu)
          = deactivate demo_dom leave_second first_active_menu"
    by blast
  have own: "target leave_first \<noteq> None" "relatedTarget leave_first = None"
    "findMenuItem demo_dom (target leave_first) = activeItem first_active_menu"
    using findMenuItem_demo(1) by (simp_all add: leave_first_def first_active_menu_facts)
  have lt: "(349::nat) < DEACTIVATE_DELAY" and ge: "DEACTIVATE_DELAY \<le> (350::nat)"
    and dd: "DEACTIVATE_DELAY = 350"
    by (simp_all add: DEACTIVATE_DELAY_def)
  note inst = activate_deactivate_ordering [of demo_dom ?first closed_menu leave_first 0,
      unfolded Let_def first]
  have nostay: "\<not> (\<exists>r. relatedTarget leave_first = Some r
                  \<and> ((\<exists>sm. findSubmenu demo_dom (findMenuItem demo_dom (target leave_first)) = Some sm
                             \<and> element_contains demo_dom sm r)
                       \<or> closest_class demo_dom ''mega-menu__nested'' r \<noteq> None))"
    by (simp add: own(2))
  from inst own(1,3) nostay
  have c1: "deactivate demo_dom leave_first first_active_menu
      = first_active_menu\<lparr>pendingActivate := None, pendingDeactivate := Some ((), DEACTIVATE_DELAY)\<rparr>"
    by blast
  from inst own(1,3) nostay lt
  have c2: "elapse demo_dom 349 (deactivate demo_dom leave_first first_active_menu)
      = first_active_menu\<lparr>pendingActivate := None, pendingDeactivate := Some ((), DEACTIVATE_DELAY - 349)\<rparr>"
    by blast
  from inst own(1,3) nostay ge
  have c3: "elapse demo_dom 350 (deactivate demo_dom leave_first first_active_menu)
      = deactivate_active demo_dom
          (first_active_menu\<lparr>pendingActivate := None, pendingDeactivate := None,
             timerLog := timerLog first_active_menu @ [FiredDeactivate]\<rparr>)"
    by blast
  have "activeItem (deactivate_active demo_dom
          (first_active_menu\<lparr>pendingActivate := None, pendingDeactivate := None,
             timerLog := timerLog first_active_menu @ [FiredDeactivate]\<rparr>)) = None"
    using deactivate_item_runs [of "first_active_menu\<lparr>pendingActivate := None, pendingDeactivate := None,
             timerLog := timerLog first_active_menu @ [FiredDeactivate]\<rparr>" 2 demo_dom]
    by (simp add: first_active_menu_facts)
  with c1 c2 c3 have c: "pendingDeactivate (deactivate demo_dom leave_first first_active_menu) = Some ((), 350)
      \<and> activeItem (elapse demo_dom 349 (deactivate demo_dom leave_first first_active_menu)) = Some 2
      \<and> activeItem (elapse demo_dom 350 (deactivate demo_dom leave_first first_active_menu)) = None"
    by (simp add: dd first_active_menu_facts)
  have runs: "menu_run demo_dom [Activate enter_first, Elapse 0, Deactivate ev] closed_menu
       = deactivate demo_dom ev first_active_menu"
    "menu_run demo_dom [Activate enter_first, Elapse 0, Deactivate ev, Elapse n] closed_menu
       = elapse demo_dom n (deactivate demo_dom ev first_active_menu)" for ev n
    by (simp_all add: menu_run_def first_active_menu_def)
  from b same have b1: "deactivate demo_dom leave_second first_active_menu = first_active_menu"
    by simp
  with b have b2: "elapse demo_dom 1000 (deactivate demo_dom leave_second first_active_menu) = first_active_menu"
    by simp
  from b1 have w5: "menu_run demo_dom [Activate enter_first, Elapse 0, Deactivate leave_second] closed_menu
       = first_active_menu"
    by (simp only: runs)
  from b2 have w6: "menu_run demo_dom [Activate enter_first, Elapse 0, Deactivate leave_second, Elapse 1000] closed_menu
       = first_active_menu"
    by (simp only: runs)
  from c have w7: "pendingDeactivate (menu_run demo_dom [Activate enter_first, Elapse 0, Deactivate leave_first] closed_menu)
       = Some ((), 350)"
    and w8: "activeItem (menu_run demo_dom [Activate enter_first, Elapse 0, Deactivate leave_first, Elapse 349] closed_menu)
       = Some 2"
    and w9: "activeItem (menu_run demo_dom [Activate enter_first, Elapse 0, Deactivate leave_first, Elapse 350] closed_menu)
       = None"
    by (simp_all only: runs)
  from a w5 w6 w7 w8 w9 show ?thesis
    by blast
qed

text \<open>
  Claim C7 fails in the code, against the comment of line 80, "Add hover listeners to
  submenus to prevent deactivation". The two listeners are added to the component and not
  to the submenus, without \<open>capture\<close>, and \<open>pointerenter\<close> and \<open>pointerleave\<close> do not bubble, so
  that neither listener runs for an event whose target is a submenu. In the menu below
  element 3 is the \<open>.menu-list__submenu\<close> of the first item, which is active.

  \<^item> A \<open>pointerleave\<close> with the submenu as target schedules nothing: the state is unchanged.
  \<^item> The pointer leaves the overflow menu, which schedules \<open>#deactivate\<close> after 350 ms; 100 ms
    later a \<open>pointerenter\<close> with the submenu as target leaves the timer as it is, with 250 ms
    to go, and after these \<open>#deactivate\<close> runs: no item is active any more.
  \<^item> The listener of line 81, had it run for that event, would have cancelled the timer.
\<close>

theorem submenu_pointerenter_cancels_nothing:
  "closest_class demo_dom ''menu-list__submenu'' 3 = Some 3
   \<and> host demo_dom = 0
   \<and> activeItem first_active_menu = Some 2
   \<and> pendingDeactivate first_active_menu = None
   \<and> menu_run demo_dom [PointerLeave 3] first_active_menu = first_active_menu
   \<and> pendingDeactivate (menu_run demo_dom [OverflowPointerLeave, Elapse 100] first_active_menu)
       = Some ((), 250)
   \<and> pendingDeactivate (menu_run demo_dom [OverflowPointerLeave, Elapse 100, PointerEnter 3] first_active_menu)
       = Some ((), 250)
   \<and> activeItem (menu_run demo_dom [OverflowPointerLeave, Elapse 100, PointerEnter 3] first_active_menu)
       = Some 2
   \<and> activeItem (menu_run demo_dom [OverflowPointerLeave, Elapse 100, PointerEnter 3, Elapse 250]
         first_active_menu) = None
   \<and> ariaExpanded (menu_run demo_dom [OverflowPointerLeave, Elapse 100, PointerEnter 3, Elapse 250]
         first_active_menu) 2 = Some ''false''
   \<and> timerLog (menu_run demo_dom [OverflowPointerLeave, Elapse 100, PointerEnter 3, Elapse 250]
         first_active_menu) = [FiredActivateHandler, FiredDeactivate]
   \<and> pendingDeactivate
         (host_pointerenter demo_dom 3
            (menu_run demo_dom [OverflowPointerLeave, Elapse 100] first_active_menu)) = None
   \<and> pendingDeactivate (host_pointerleave demo_dom 3 first_active_menu) = Some ((), 350)"
proof -
  have sub: "closest_class demo_dom ''menu-list__submenu'' 3 = Some 3" "host demo_dom = 0"
    by (simp_all add: closest_class_def demo_dom_def)
  have inside: "on_host demo_dom 3 f s = s" for f and s :: "nat header_menu"
    by (simp add: on_host_def sub)
  have leave: "menu_run demo_dom [PointerLeave 3] first_active_menu = first_active_menu"
    by (simp add: menu_run_def inside)
  have wait: "menu_run demo_dom [OverflowPointerLeave, Elapse 100] first_active_menu
      = first_active_menu\<lparr>pendingDeactivate := Some ((), 250)\<rparr>"
    using elapse_before_deadline [of first_active_menu 100 350 demo_dom]
    by (simp add: menu_run_def overflow_pointerleave_def debounce_call_def DEACTIVATE_DELAY_def
          first_active_menu_facts)
  have enter: "menu_run demo_dom [OverflowPointerLeave, Elapse 100, PointerEnter 3] first_active_menu
      = first_active_menu\<lparr>pendingDeactivate := Some ((), 250)\<rparr>"
    using wait by (simp add: menu_run_def inside)
  have fire: "menu_run demo_dom [OverflowPointerLeave, Elapse 100, PointerEnter 3, Elapse 250] first_active_menu
      = deactivate_active demo_dom
          (first_active_menu\<lparr>pendingDeactivate := None,
             timerLog := timerLog first_active_menu @ [FiredDeactivate]\<rparr>)"
    using enter elapse_at_deadline [of first_active_menu 250 250 demo_dom]
    by (simp add: menu_run_def first_active_menu_facts)
  have off: "activeItem (deactivate_active demo_dom
          (first_active_menu\<lparr>pendingDeactivate := None,
             timerLog := timerLog first_active_menu @ [FiredDeactivate]\<rparr>)) = None
      \<and> ariaExpanded (deactivate_active demo_dom
          (first_active_menu\<lparr>pendingDeactivate := None,
             timerLog := timerLog first_active_menu @ [FiredDeactivate]\<rparr>)) 2 = Some ''false''"
    using deactivate_item_runs [of "first_active_menu\<lparr>pendingDeactivate := None,
             timerLog := timerLog first_active_menu @ [FiredDeactivate]\<rparr>" 2 demo_dom]
    by (simp add: first_active_menu_facts)
  have log: "timerLog (deactivate_active demo_dom
          (first_active_menu\<lparr>pendingDeactivate := None,
             timerLog := timerLog first_active_menu @ [FiredDeactivate]\<rparr>))
        = [FiredActivateHandler, FiredDeactivate]"
    by (simp add: deactivate_active_def deactivate_item_def first_active_menu_facts)
  have listener: "pendingDeactivate
         (host_pointerenter demo_dom 3 (first_active_menu\<lparr>pendingDeactivate := Some ((), 250)\<rparr>)) = None"
    "pendingDeactivate (host_pointerleave demo_dom 3 first_active_menu) = Some ((), 350)"
    by (simp_all add: host_pointerenter_def host_pointerleave_def sub debounce_cancel_def
          debounce_call_def DEACTIVATE_DELAY_def)
  from sub leave wait enter fire off log listener show ?thesis
    by (simp add: first_active_menu_facts)
qed


section \<open>Properties of the submenu toggle\<close>

lemma submenu_toggle_click_eq:
  assumes "closest_class d ''menu-list__link--has-submenu'' tgt = Some link"
    and "parentElement d link = Some parent"
  shows "submenu_toggle_click d tgt s =
     (case querySelector d (\<lambda>x. ''menu-list__submenu'' \<in> set (classList d x)) parent of
        None \<Rightarrow>
          s\<lparr>ariaExpanded := (ariaExpanded s)
               (link := Some (if ariaExpanded s link = Some ''true'' then ''false'' else ''true''))\<rparr>
      | Some sm \<Rightarrow>
          s\<lparr>ariaExpanded := (ariaExpanded s)
               (link := Some (if ariaExpanded s link = Some ''true'' then ''false'' else ''true'')),
            hidden := (hidden s)(sm := (ariaExpanded s link = Some ''true''))\<rparr>)"
  using assms by (simp add: submenu_toggle_click_def Let_def split: option.splits)

text \<open>
  Claim C6 as stated fails when the submenu's \<open>hidden\<close> attribute disagrees with the link's
  \<open>aria-expanded\<close> before the first click. In the first menu below the link is expanded
  while its submenu is hidden (\<open>#activateHandler\<close> produces such a state when it expands a
  hovered item without touching \<open>hidden\<close>); after two clicks the link is expanded again, and
  the submenu is no longer hidden. In the second the link is collapsed and its submenu has no
  \<open>hidden\<close> attribute; after two clicks the link is collapsed again, and the submenu is hidden.
\<close>

theorem submenu_toggle_twice_changes_hidden:
  "ariaExpanded expanded_hidden_menu 2 = Some ''true''
   \<and> hidden expanded_hidden_menu 3
   \<and> ariaExpanded (submenu_toggle_click demo_dom 2 (submenu_toggle_click demo_dom 2 expanded_hidden_menu)) 2
       = Some ''true''
   \<and> \<not> hidden (submenu_toggle_click demo_dom 2 (submenu_toggle_click demo_dom 2 expanded_hidden_menu)) 3
   \<and> ariaExpanded collapsed_visible_menu 2 = Some ''false''
   \<and> \<not> hidden collapsed_visible_menu 3
   \<and> ariaExpanded (submenu_toggle_click demo_dom 2 (submenu_toggle_click demo_dom 2 collapsed_visible_menu)) 2
       = Some ''false''
   \<and> hidden (submenu_toggle_click demo_dom 2 (submenu_toggle_click demo_dom 2 collapsed_visible_menu)) 3"
  by code_simp

text \<open>
  Claim C6, amended. A click on a \<open>.menu-list__link--has-submenu\<close> link flips the link's
  \<open>aria-expanded\<close> between \<open>true\<close> and not \<open>true\<close> and sets the submenu's \<open>hidden\<close> attribute
  exactly when the link is no longer expanded. Two consecutive clicks on the same link
  restore the link's expanded state; they restore the submenu's \<open>hidden\<close> state when, before
  the first click, the submenu was hidden exactly when the link was not expanded, and
  otherwise leave the submenu hidden exactly when the link is not expanded. After the first
  click the toggle is an involution: a third click gives the state after the first, and two
  clicks restore the whole state when the link's \<open>aria-expanded\<close> was \<open>true\<close> or \<open>false\<close> and
  agreed with the submenu.
\<close>

theorem submenu_toggle_amended:
  assumes "closest_class d ''menu-list__link--has-submenu'' tgt = Some link"
    and "parentElement d link = Some parent"
  shows "let submenu = querySelector d (\<lambda>x. ''menu-list__submenu'' \<in> set (classList d x)) parent;
             s1 = submenu_toggle_click d tgt s;
             s2 = submenu_toggle_click d tgt s1;
             s3 = submenu_toggle_click d tgt s2
         in (ariaExpanded s1 link = Some ''true'' \<longleftrightarrow> ariaExpanded s link \<noteq> Some ''true'')
          \<and> (ariaExpanded s1 link = Some ''true'' \<or> ariaExpanded s1 link = Some ''false'')
          \<and> (\<forall>sm. submenu = Some sm \<longrightarrow>
                (hidden s1 sm \<longleftrightarrow> ariaExpanded s1 link \<noteq> Some ''true''))
          \<and> (ariaExpanded s2 link = Some ''true'' \<longleftrightarrow> ariaExpanded s link = Some ''true'')
          \<and> (\<forall>sm. submenu = Some sm \<longrightarrow>
                (hidden s2 sm \<longleftrightarrow> ariaExpanded s2 link \<noteq> Some ''true''))
          \<and> (\<forall>sm. submenu = Some sm
                  \<and> (hidden s sm \<longleftrightarrow> ariaExpanded s link \<noteq> Some ''true'') \<longrightarrow>
                hidden s2 sm = hidden s sm)
          \<and> s3 = s1
          \<and> ((ariaExpanded s link = Some ''true'' \<or> ariaExpanded s link = Some ''false'')
               \<and> (\<forall>sm. submenu = Some sm \<longrightarrow>
                     (hidden s sm \<longleftrightarrow> ariaExpanded s link \<noteq> Some ''true'')) \<longrightarrow>
              s2 = s)"
proof (cases "querySelector d (\<lambda>x. ''menu-list__submenu'' \<in> set (classList d x)) parent")
  case None
  have step: "submenu_toggle_click d tgt x =
      x\<lparr>ariaExpanded := (ariaExpanded x)
               (link := Some (if ariaExpanded x link = Some ''true'' then ''false'' else ''true''))\<rparr>" for x
    using submenu_toggle_click_eq [OF assms, of x] None by simp
  have "(ariaExpanded s link = Some ''true'' \<or> ariaExpanded s link = Some ''false'') \<longrightarrow>
        submenu_toggle_click d tgt (submenu_toggle_click d tgt s) = s"
    by (auto simp: step fun_upd_idem)
  then show ?thesis
    unfolding Let_def None by (simp add: step)
next
  case (Some sm)
  have step: "submenu_toggle_click d tgt x =
      x\<lparr>ariaExpanded := (ariaExpanded x)
               (link := Some (if ariaExpanded x link = Some ''true'' then ''false'' else ''true'')),
            hidden := (hidden x)(sm := (ariaExpanded x link = Some ''true''))\<rparr>" for x
    using submenu_toggle_click_eq [OF assms, of x] Some by simp
  have "(ariaExpanded s link = Some ''true'' \<or> ariaExpanded s link = Some ''false'')
        \<and> (hidden s sm \<longleftrightarrow> ariaExpanded s link \<noteq> Some ''true'') \<longrightarrow>
        submenu_toggle_click d tgt (submenu_toggle_click d tgt s) = s"
    by (auto simp: step fun_upd_idem)
  then show ?thesis
    unfolding Let_def Some by (simp add: step)
qed

theorem submenu_toggle_amended_witness:
  "closest_class demo_dom ''menu-list__link--has-submenu'' 2 = Some 2
   \<and> parentElement demo_dom 2 = Some 1
   \<and> ariaExpanded (submenu_toggle_click demo_dom 2 closed_menu) 2 = Some ''true''
   \<and> \<not> hidden (submenu_toggle_click demo_dom 2 closed_menu) 3
   \<and> submenu_toggle_click demo_dom 2 (submenu_toggle_click demo_dom 2 closed_menu) = closed_menu
   \<and> submenu_toggle_click demo_dom 2
         (submenu_toggle_click demo_dom 2 (submenu_toggle_click demo_dom 2 expanded_hidden_menu))
       = submenu_toggle_click demo_dom 2 expanded_hidden_menu"
proof -
  have link: "closest_class demo_dom ''menu-list__link--has-submenu'' 2 = Some 2"
    by (simp add: closest_class_def demo_dom_def)
  have parent: "parentElement demo_dom 2 = Some 1"
    by (simp add: parentElement_def demo_dom_def)
  have sub: "querySelector demo_dom (\<lambda>x. ''menu-list__submenu'' \<in> set (classList demo_dom x)) 1 = Some 3"
    by (simp add: querySelector_def demo_dom_def)
  have before: "ariaExpanded closed_menu 2 = Some ''false''" "hidden closed_menu 3"
    by (simp_all add: closed_menu_def)
  from submenu_toggle_amended [OF link parent, of closed_menu] sub before
  have a: "ariaExpanded (submenu_toggle_click demo_dom 2 closed_menu) 2 = Some ''true''"
    and b: "\<not> hidden (submenu_toggle_click demo_dom 2 closed_menu) 3"
    and c: "submenu_toggle_click demo_dom 2 (submenu_toggle_click demo_dom 2 closed_menu) = closed_menu"
    unfolding Let_def by simp_all
  from submenu_toggle_amended [OF link parent, of expanded_hidden_menu]
  have e: "submenu_toggle_click demo_dom 2
         (submenu_toggle_click demo_dom 2 (submenu_toggle_click demo_dom 2 expanded_hidden_menu))
       = submenu_toggle_click demo_dom 2 expanded_hidden_menu"
    unfolding Let_def by blast
  from link parent a b c e show ?thesis
    by blast
qed

end
